theory Spec2Isabelle
  imports Main "HOL-Library.Word"
begin

section \<open>Strings and paths\<close>

text \<open>
  The converter script works on Python \<open>str\<close> paths through \<open>str.lower\<close>,
  \<open>str.endswith\<close>, \<open>os.path.join\<close> and \<open>os.path.splitext\<close> (POSIX flavour:
  separator \<open>/\<close>, no alternative separator, extension separator \<open>.\<close>).
  Paths are \<open>string\<close>s; \<open>lower\<close> folds the ASCII letters, which is all the suffix
  test against \<open>.webp\<close> can observe.
\<close>

definition lower_char :: "char \<Rightarrow> char" where
  "lower_char c =
     (case map_of (zip ''ABCDEFGHIJKLMNOPQRSTUVWXYZ'' ''abcdefghijklmnopqrstuvwxyz'') c of
        Some l \<Rightarrow> l
      | None \<Rightarrow> c)"

definition lower :: "string \<Rightarrow> string" where
  "lower s = map lower_char s"

definition endswith :: "string \<Rightarrow> string \<Rightarrow> bool" where
  "endswith s suffix =
     (length suffix \<le> length s \<and> drop (length s - length suffix) s = suffix)"

definition startswith :: "string \<Rightarrow> string \<Rightarrow> bool" where
  "startswith s pre = (take (length pre) s = pre)"

text \<open>\<open>str.rfind\<close> for a single character: the highest index holding it, or \<open>-1\<close>.\<close>

fun rfind :: "string \<Rightarrow> char \<Rightarrow> int" where
  "rfind [] c = - 1"
| "rfind (x # xs) c =
     (let r = rfind xs c in if 0 \<le> r then r + 1 else if x = c then 0 else - 1)"

text \<open>
  \<open>posixpath.join(a, b)\<close> for one component:
  \<^verbatim>\<open>
    if b.startswith(sep): path = b
    elif not path or path.endswith(sep): path += b
    else: path += sep + b
  \<close>
\<close>

definition join :: "string \<Rightarrow> string \<Rightarrow> string" where
  "join a b =
     (if startswith b ''/'' then b
      else if a = [] \<or> endswith a ''/'' then a @ b
      else a @ ''/'' @ b)"

text \<open>
  \<open>genericpath._splitext(p, sep, altsep, extsep)\<close>, which \<open>os.path.splitext\<close> calls:
  \<^verbatim>\<open>
    sepIndex = p.rfind(sep)
    dotIndex = p.rfind(extsep)
    if dotIndex > sepIndex:
        # skip all leading dots
        filenameIndex = sepIndex + 1
        while filenameIndex < dotIndex:
            if p[filenameIndex:filenameIndex+1] != extsep:
                return p[:dotIndex], p[dotIndex:]
            filenameIndex += 1
    return p, p[:0]
  \<close>
  The \<open>while\<close> loop is \<open>skip_leading_dots\<close>: it answers whether a character other
  than the dot stands between the file name's start and the last dot.
\<close>

function skip_leading_dots :: "string \<Rightarrow> nat \<Rightarrow> nat \<Rightarrow> bool" where
  "skip_leading_dots p filenameIndex dotIndex =
     (if filenameIndex < dotIndex then
        (if p ! filenameIndex \<noteq> CHR ''.'' then True
         else skip_leading_dots p (Suc filenameIndex) dotIndex)
      else False)"
  by pat_completeness auto
termination
  by (relation "measure (\<lambda>(p, i, d). d - i)") auto

declare skip_leading_dots.simps [simp del]

definition splitext :: "string \<Rightarrow> string \<times> string" where
  "splitext p =
     (let sepIndex = rfind p CHR ''/'';
          dotIndex = rfind p CHR ''.''
      in if sepIndex < dotIndex \<and> skip_leading_dots p (nat (sepIndex + 1)) (nat dotIndex)
         then (take (nat dotIndex) p, drop (nat dotIndex) p)
         else (p, []))"

text \<open>
  Lines 29--31 of the converter: the output path when none is supplied.
  \<^verbatim>\<open>
    filename = os.path.splitext(input_path)[0]
    output_path = f"{filename}.jpg"
  \<close>
\<close>

definition derive_output_path :: "string \<Rightarrow> string" where
  "derive_output_path input_path = fst (splitext input_path) @ ''.jpg''"

text \<open>The directory part of a path: everything through its last separator.\<close>

definition dir_prefix :: "string \<Rightarrow> string" where
  "dir_prefix p = take (nat (rfind p CHR ''/'' + 1)) p"


section \<open>Exceptions\<close>

text \<open>
  What a call raises: an instance of a subclass of Python's \<open>Exception\<close>, with its
  class name and message. The imaging library, the codecs, the file system and
  \<open>print\<close> raise nothing else, and \<open>except Exception as e\<close> handles every such
  value. \<open>str_exn\<close> is the text that \<open>{e}\<close> formats to.
\<close>

datatype exn = Exception (exn_class: string) (exn_message: string)

definition str_exn :: "exn \<Rightarrow> string" where
  "str_exn e = exn_message e"

section \<open>Images and the imaging library\<close>

text \<open>
  An image handle: the colour mode, the size (width, height) and the pixel data as one
  list of 8-bit samples per band, as \<open>Image.split()\<close> hands them out.
\<close>

record image =
  im_mode :: string
  im_size :: "nat \<times> nat"
  im_bands :: "8 word list list"

definition npixels :: "image \<Rightarrow> nat" where
  "npixels img = fst (im_size img) * snd (im_size img)"

text \<open>\<open>Image.new(mode, size, color)\<close> with one sample per band in \<open>color\<close>.\<close>

definition Image_new :: "string \<Rightarrow> nat \<times> nat \<Rightarrow> 8 word list \<Rightarrow> image" where
  "Image_new m sz color =
     \<lparr>im_mode = m, im_size = sz, im_bands = map (replicate (fst sz * snd sz)) color\<rparr>"

text \<open>\<open>img.split()\<close>: one single-band image of mode \<open>L\<close> per band.\<close>

definition split :: "image \<Rightarrow> image list" where
  "split img =
     map (\<lambda>b. \<lparr>im_mode = ''L'', im_size = im_size img, im_bands = [b]\<rparr>) (im_bands img)"

text \<open>Indexing a tuple with a non-negative constant: out of range raises \<open>IndexError\<close>.\<close>

definition getitem :: "'a list \<Rightarrow> nat \<Rightarrow> exn + 'a" where
  "getitem xs i =
     (if i < length xs then Inr (xs ! i)
      else Inl (Exception ''IndexError'' ''tuple index out of range''))"

text \<open>
  The imaging library's 8-bit blend, used by \<open>paste\<close> with an \<open>L\<close> mask:
  \<^verbatim>\<open>
    #define DIV255(a, tmp) (tmp = (a) + 128, ((((tmp) >> 8) + (tmp)) >> 8))
    #define BLEND8(mask, in1, in2, tmp1) DIV255(in1 * (255 - mask) + in2 * mask, tmp1)
  \<close>
  It keeps \<open>in1\<close> where the mask is 0, takes \<open>in2\<close> where it is 255 and mixes the two
  in between.
\<close>

definition DIV255 :: "nat \<Rightarrow> nat" where
  "DIV255 a = (let tmp = a + 128 in (tmp div 256 + tmp) div 256)"

definition BLEND8 :: "8 word \<Rightarrow> 8 word \<Rightarrow> 8 word \<Rightarrow> 8 word" where
  "BLEND8 msk in1 in2 =
     of_nat (DIV255 (unat in1 * (255 - unat msk) + unat in2 * unat msk))"

definition blend_band :: "8 word list \<Rightarrow> 8 word list \<Rightarrow> 8 word list \<Rightarrow> 8 word list" where
  "blend_band msk dst src = map (\<lambda>(m, d, s). BLEND8 m d s) (zip msk (zip dst src))"

text \<open>
  The colour samples an image contributes when it is pasted into an \<open>RGB\<close> image. The
  library pastes \<open>RGBA\<close> and \<open>LA\<close> images into \<open>RGB\<close> without converting them first; it
  stores an \<open>LA\<close> pixel as (L, L, L, A), so the grey level fills the three colour bands.
\<close>

definition paste_source_bands :: "image \<Rightarrow> exn + 8 word list list" where
  "paste_source_bands img =
     (if im_mode img = ''RGBA'' \<and> length (im_bands img) = 4 then Inr (take 3 (im_bands img))
      else if im_mode img = ''LA'' \<and> length (im_bands img) = 2 then
        Inr (replicate 3 (im_bands img ! 0))
      else if im_mode img = ''RGB'' \<and> length (im_bands img) = 3 then Inr (im_bands img)
      else Inl (Exception ''ValueError'' ''cannot paste this image''))"

text \<open>
  \<open>background.paste(img, mask=mask)\<close> into an \<open>RGB\<close> background, no box given: the
  pasted image and the mask must have the background's size (\<open>ValueError\<close> otherwise),
  and each colour band is blended through the mask.
\<close>

definition paste :: "image \<Rightarrow> image \<Rightarrow> image \<Rightarrow> exn + image" where
  "paste background img msk =
     (if im_size img \<noteq> im_size background \<or> im_size msk \<noteq> im_size background
         \<or> length (im_bands msk) \<noteq> 1 then
        Inl (Exception ''ValueError'' ''images do not match'')
      else
        (case paste_source_bands img of
           Inl e \<Rightarrow> Inl e
         | Inr src \<Rightarrow>
             Inr (background\<lparr>im_bands :=
                    map (\<lambda>(d, s). blend_band (im_bands msk ! 0) d s)
                      (zip (im_bands background) src)\<rparr>)))"

section \<open>Text that standard output can encode\<close>

text \<open>
  A \<open>string\<close> holds the bytes of a text in UTF-8, the encoding of file names and of
  standard output. A name read from the file system may hold bytes that are not
  well-formed UTF-8; Python carries each such byte as a lone surrogate, and a text with a
  lone surrogate cannot be encoded by a standard output with the error handler
  \<open>strict\<close>. \<open>utf8_valid\<close> is well-formedness of a byte sequence (the table of
  well-formed UTF-8 byte sequences of the Unicode standard): \<open>utf8_followers\<close> gives,
  for a leading byte, the ranges of the bytes that must follow it.
\<close>

definition in_range :: "char \<Rightarrow> nat \<Rightarrow> nat \<Rightarrow> bool" where
  "in_range c lo hi = (lo \<le> of_char c \<and> (of_char c :: nat) \<le> hi)"

definition utf8_followers :: "char \<Rightarrow> (nat \<times> nat) list option" where
  "utf8_followers c =
     (if in_range c 0x00 0x7F then Some []
      else if in_range c 0xC2 0xDF then Some [(0x80, 0xBF)]
      else if in_range c 0xE0 0xE0 then Some [(0xA0, 0xBF), (0x80, 0xBF)]
      else if in_range c 0xED 0xED then Some [(0x80, 0x9F), (0x80, 0xBF)]
      else if in_range c 0xE1 0xEF then Some [(0x80, 0xBF), (0x80, 0xBF)]
      else if in_range c 0xF0 0xF0 then Some [(0x90, 0xBF), (0x80, 0xBF), (0x80, 0xBF)]
      else if in_range c 0xF1 0xF3 then Some [(0x80, 0xBF), (0x80, 0xBF), (0x80, 0xBF)]
      else if in_range c 0xF4 0xF4 then Some [(0x80, 0x8F), (0x80, 0xBF), (0x80, 0xBF)]
      else None)"

fun utf8_valid :: "string \<Rightarrow> bool" where
  "utf8_valid [] = True"
| "utf8_valid (c # cs) =
     (case utf8_followers c of
        None \<Rightarrow> False
      | Some ranges \<Rightarrow>
          length ranges \<le> length cs
          \<and> list_all2 (\<lambda>(lo, hi) b. in_range b lo hi) ranges (take (length ranges) cs)
          \<and> utf8_valid (drop (length ranges) cs))"

text \<open>A text in single quotes, as error messages show names.\<close>

definition quoted :: "string \<Rightarrow> string" where
  "quoted p = CHR 0x27 # p @ [CHR 0x27]"

section \<open>The file system and the codecs\<close>

text \<open>
  A directory tree: a regular file holds its content, a directory its entries in the
  order the listing primitive yields them. The content type \<open>'c\<close> is left open: what
  the bytes decode to is the codec's business.
\<close>

datatype 'c node = RegFile 'c | Directory "(string \<times> 'c node) list"

text \<open>
  The external collaborators, as parameters: the decoder behind \<open>Image.open\<close>, the mode
  conversion \<open>img.convert(mode)\<close>, the JPEG encoder with its quality argument (it does
  its own validation), whether a path can be opened for writing, and whether standard
  output encodes with the error handler \<open>strict\<close>.
\<close>

record 'c env =
  decode :: "'c \<Rightarrow> exn + image"
  convert_mode :: "image \<Rightarrow> string \<Rightarrow> exn + image"
  encode_jpeg :: "image \<Rightarrow> int \<Rightarrow> exn + 'c"
  write_error :: "string \<Rightarrow> exn option"
  stdout_strict :: bool

text \<open>
  The state a run acts on: the tree below the path \<open>fs_top\<close>, the files saved so far
  (latest first) and the lines written to standard output and to standard error. Every
  file the program writes lands beside its input, in a directory whose listing was
  already taken, so the listings are those of \<open>fs_tree\<close>.
\<close>

record 'c world =
  fs_top :: string
  fs_tree :: "'c node"
  saved :: "(string \<times> 'c) list"
  stdout :: "string list"
  stderr :: "string list"

text \<open>
  \<open>print(line)\<close>: the line is encoded and written to standard output. A strict
  standard output raises \<open>UnicodeEncodeError\<close> for a line it cannot encode and writes
  nothing. Strings are the bytes of the file system; the bytes of a name that are not
  well-formed UTF-8 are what Python holds as lone surrogates, which the codec refuses.
  (Python's message also names the character and its position.)
\<close>

definition unicode_encode_error :: exn where
  "unicode_encode_error =
     Exception ''UnicodeEncodeError''
       (quoted ''utf-8'' @ '' codec can'' @ CHR 0x27
        # ''t encode character: surrogates not allowed'')"

definition print :: "'c env \<Rightarrow> string \<Rightarrow> 'c world \<Rightarrow> exn + 'c world" where
  "print env line w =
     (if stdout_strict env \<and> \<not> utf8_valid line then Inl unicode_encode_error
      else Inr (w\<lparr>stdout := stdout w @ [line]\<rparr>))"

text \<open>
  Resolving a path: the node at \<open>cur\<close> is \<open>t\<close>, and the entries of a directory are
  reached under the names \<open>os.path.join\<close> builds for them.
\<close>

fun fs_lookup :: "string \<Rightarrow> 'c node \<Rightarrow> string \<Rightarrow> 'c node option" where
  "fs_lookup cur (RegFile c) p = (if p = cur then Some (RegFile c) else None)"
| "fs_lookup cur (Directory es) p =
     (if p = cur then Some (Directory es)
      else
        (case filter (\<lambda>r. r \<noteq> None) (map (\<lambda>(n, t). fs_lookup (join cur n) t p) es) of
           [] \<Rightarrow> None
         | r # _ \<Rightarrow> r))"

definition resolve :: "'c world \<Rightarrow> string \<Rightarrow> 'c node option" where
  "resolve w p = fs_lookup (fs_top w) (fs_tree w) p"

definition os_path_isdir :: "'c world \<Rightarrow> string \<Rightarrow> bool" where
  "os_path_isdir w p = (case resolve w p of Some (Directory es) \<Rightarrow> True | _ \<Rightarrow> False)"

text \<open>\<open>os.listdir(path)\<close>: the names of all entries, whatever their kind.\<close>

definition os_listdir :: "'c world \<Rightarrow> string \<Rightarrow> exn + string list" where
  "os_listdir w p =
     (case resolve w p of
        None \<Rightarrow>
          Inl (Exception ''FileNotFoundError''
                 (''[Errno 2] No such file or directory: '' @ quoted p))
      | Some (RegFile c) \<Rightarrow>
          Inl (Exception ''NotADirectoryError'' (''[Errno 20] Not a directory: '' @ quoted p))
      | Some (Directory es) \<Rightarrow> Inr (map fst es))"

text \<open>
  \<open>os.walk(top)\<close>, top-down and without following links: for each directory the triple
  of its path, the names of its subdirectories and the names of its other entries, then
  the same for each subdirectory in listing order. A top that cannot be scanned yields
  nothing (\<open>onerror\<close> is not set).
\<close>

fun is_dir :: "'c node \<Rightarrow> bool" where
  "is_dir (Directory es) = True"
| "is_dir (RegFile c) = False"

fun walk_tree :: "string \<Rightarrow> 'c node \<Rightarrow> (string \<times> string list \<times> string list) list" where
  "walk_tree root (RegFile c) = []"
| "walk_tree root (Directory es) =
     (root, map fst (filter (\<lambda>(n, t). is_dir t) es), map fst (filter (\<lambda>(n, t). \<not> is_dir t) es))
     # concat (map (\<lambda>(n, t). walk_tree (join root n) t) es)"

definition os_walk :: "'c world \<Rightarrow> string \<Rightarrow> (string \<times> string list \<times> string list) list" where
  "os_walk w root = (case resolve w root of None \<Rightarrow> [] | Some t \<Rightarrow> walk_tree root t)"

text \<open>
  \<open>Image.open(path)\<close>: a directory cannot be opened; a file saved during the run is
  read back; otherwise the file in the tree is decoded, and a missing path cannot be
  opened.
\<close>

definition Image_open :: "'c env \<Rightarrow> 'c world \<Rightarrow> string \<Rightarrow> exn + image" where
  "Image_open env w p =
     (case resolve w p of
        Some (Directory es) \<Rightarrow>
          Inl (Exception ''IsADirectoryError'' (''[Errno 21] Is a directory: '' @ quoted p))
      | Some (RegFile c) \<Rightarrow>
          (case map_of (saved w) p of Some c' \<Rightarrow> decode env c' | None \<Rightarrow> decode env c)
      | None \<Rightarrow>
          (case map_of (saved w) p of
             Some c' \<Rightarrow> decode env c'
           | None \<Rightarrow>
               Inl (Exception ''FileNotFoundError''
                      (''[Errno 2] No such file or directory: '' @ quoted p))))"

text \<open>
  \<open>img.save(path, format, quality=quality)\<close>: the encoder of the format gets the image
  and the quality as they are; \<open>saved\<close> records the file once the encoder is done.
\<close>

definition save ::
  "'c env \<Rightarrow> image \<Rightarrow> string \<Rightarrow> string \<Rightarrow> int \<Rightarrow> 'c world \<Rightarrow> exn + 'c world" where
  "save env img p fmt quality w =
     (if fmt \<noteq> ''JPEG'' then Inl (Exception ''KeyError'' fmt)
      else
        (case resolve w p of
           Some (Directory es) \<Rightarrow>
             Inl (Exception ''IsADirectoryError'' (''[Errno 21] Is a directory: '' @ quoted p))
         | _ \<Rightarrow>
             (case write_error env p of
                Some e \<Rightarrow> Inl e
              | None \<Rightarrow>
                  (case encode_jpeg env img quality of
                     Inl e \<Rightarrow> Inl e
                   | Inr c \<Rightarrow> Inr (w\<lparr>saved := (p, c) # saved w\<rparr>)))))"

section \<open>The single-image converter\<close>

text \<open>
  The body of the \<open>try\<close> block of \<open>convert_webp_to_jpeg\<close> (lines 25--44): an exception
  raised by any step, the \<open>print\<close> of line 43 included, ends it with \<open>Inl\<close>, in the
  state reached by then.
\<close>

definition try_block ::
  "'c env \<Rightarrow> string \<Rightarrow> string option \<Rightarrow> int \<Rightarrow> 'c world \<Rightarrow> (exn + string) \<times> 'c world" where
  "try_block env input_path output_path quality w =
     (case Image_open env w input_path of
        Inl e \<Rightarrow> (Inl e, w)
      | Inr img \<Rightarrow>
          (let output_path =
                 (case output_path of
                    None \<Rightarrow> derive_output_path input_path
                  | Some p \<Rightarrow> p)
           in case
               (if im_mode img \<in> set [''RGBA'', ''LA''] then
                  (case (if im_mode img = ''RGBA'' then getitem (split img) 3
                         else getitem (split img) 1) of
                     Inl e \<Rightarrow> Inl e
                   | Inr msk \<Rightarrow>
                       (case paste (Image_new ''RGB'' (im_size img) [255, 255, 255]) img msk of
                          Inl e \<Rightarrow> Inl e
                        | Inr background \<Rightarrow> save env background output_path ''JPEG'' quality w))
                else
                  (case convert_mode env img ''RGB'' of
                     Inl e \<Rightarrow> Inl e
                   | Inr rgb \<Rightarrow> save env rgb output_path ''JPEG'' quality w))
              of
                Inl e \<Rightarrow> (Inl e, w)
              | Inr w' \<Rightarrow>
                  (case print env (''Converted: '' @ input_path @ '' -> '' @ output_path) w' of
                     Inl e \<Rightarrow> (Inl e, w')
                   | Inr w'' \<Rightarrow> (Inr output_path, w''))))"

text \<open>
  \<open>convert_webp_to_jpeg(input_path, output_path=None, quality=90)\<close>: the \<open>try\<close> block
  with its handler \<open>except Exception as e\<close> (lines 45--47). The result is the output
  path, or \<open>None\<close>; the \<open>print\<close> of line 46 stands in the handler, outside the
  \<open>try\<close>, so what it raises leaves the function (\<open>Inl\<close>).
\<close>

definition convert_webp_to_jpeg ::
  "'c env \<Rightarrow> string \<Rightarrow> string option \<Rightarrow> int \<Rightarrow> 'c world
     \<Rightarrow> (exn + string option) \<times> 'c world" where
  "convert_webp_to_jpeg env input_path output_path quality w =
     (case try_block env input_path output_path quality w of
        (Inr p, w') \<Rightarrow> (Inr (Some p), w')
      | (Inl e, w') \<Rightarrow>
          (case print env (''Error converting '' @ input_path @ '': '' @ str_exn e) w' of
             Inl e' \<Rightarrow> (Inl e', w')
           | Inr w'' \<Rightarrow> (Inr None, w'')))"

section \<open>The batch walker\<close>

text \<open>
  The inner loop, the same in both branches of \<open>batch_convert_webp_to_jpeg\<close>:
  \<^verbatim>\<open>
    for file in files:
        if file.lower().endswith('.webp'):
            convert_webp_to_jpeg(os.path.join(root, file), quality=quality)
  \<close>
  The converter's result is dropped and no output path is passed. Nothing is caught:
  an exception that leaves the converter ends the loop.
\<close>

fun convert_files ::
  "'c env \<Rightarrow> int \<Rightarrow> string \<Rightarrow> string list \<Rightarrow> 'c world \<Rightarrow> (exn + unit) \<times> 'c world" where
  "convert_files env quality root [] w = (Inr (), w)"
| "convert_files env quality root (file # files) w =
     (if endswith (lower file) ''.webp'' then
        (case convert_webp_to_jpeg env (join root file) None quality w of
           (Inl e, w') \<Rightarrow> (Inl e, w')
         | (Inr r, w') \<Rightarrow> convert_files env quality root files w')
      else convert_files env quality root files w)"

text \<open>The outer loop of the recursive branch: \<open>for root, _, files in os.walk(directory)\<close>.\<close>

fun convert_walk ::
  "'c env \<Rightarrow> int \<Rightarrow> (string \<times> string list \<times> string list) list \<Rightarrow> 'c world
     \<Rightarrow> (exn + unit) \<times> 'c world" where
  "convert_walk env quality [] w = (Inr (), w)"
| "convert_walk env quality ((root, dirs, files) # rest) w =
     (case convert_files env quality root files w of
        (Inl e, w') \<Rightarrow> (Inl e, w')
      | (Inr u, w') \<Rightarrow> convert_walk env quality rest w')"

text \<open>
  \<open>batch_convert_webp_to_jpeg(directory, quality=90, recursive=False)\<close>. Nothing is
  caught here either: what \<open>os.listdir\<close> raises leaves the function.
\<close>

definition batch_convert_webp_to_jpeg ::
  "'c env \<Rightarrow> string \<Rightarrow> int \<Rightarrow> bool \<Rightarrow> 'c world \<Rightarrow> (exn + unit) \<times> 'c world" where
  "batch_convert_webp_to_jpeg env directory quality recursive w =
     (if recursive then convert_walk env quality (os_walk w directory) w
      else
        (case os_listdir w directory of
           Inl e \<Rightarrow> (Inl e, w)
         | Inr files \<Rightarrow> convert_files env quality directory files w))"

section \<open>The command line\<close>

text \<open>
  What \<open>parser.parse_args()\<close> yields for this parser. A namespace: \<open>command\<close> is
  \<open>None\<close> when no command was given; \<open>output'\<close> (the attribute \<open>output\<close>) is
  \<open>None\<close> without \<open>-o\<close>; \<open>quality\<close> defaults to 90 and \<open>recursive\<close> to
  \<open>False\<close>. Or the parser ends the process itself: after the help for \<open>-h\<close>
  (status 0), or after the usage of the parser that rejected the arguments and an error
  message (status 2).
\<close>

record args =
  command :: "string option"
  input :: string
  output' :: "string option"
  quality :: int
  recursive :: bool

datatype parsed =
    Namespace args
  | Help_requested
  | Usage_error "string list" string

text \<open>
  The argument parser that \<open>main\<close> builds (lines 69--77), as a parameter: what it
  makes of the arguments, its program name, and the help it formats, the usage first.
\<close>

record argument_parser =
  parse_args :: "string list \<Rightarrow> parsed"
  prog :: string
  format_usage :: "string list"
  format_help_body :: "string list"

text \<open>
  How a run of \<open>main\<close> ends: it returns, an exception leaves it, or the process exits
  with a status.
\<close>

datatype ending = Returned | Raised exn | Exited int

definition ended :: "(exn + 'a) \<times> 'c world \<Rightarrow> ending \<times> 'c world" where
  "ended r = (case r of (Inl e, w) \<Rightarrow> (Raised e, w) | (Inr v, w) \<Rightarrow> (Returned, w))"

text \<open>
  \<open>parser.print_help()\<close>: the help of the top-level parser, the usage first, written to
  standard output in one piece.
\<close>

definition format_help :: "argument_parser \<Rightarrow> string list" where
  "format_help parser = format_usage parser @ format_help_body parser"

definition print_help :: "'c env \<Rightarrow> argument_parser \<Rightarrow> 'c world \<Rightarrow> exn + 'c world" where
  "print_help env parser w =
     (if stdout_strict env \<and> \<not> list_all utf8_valid (format_help parser) then
        Inl unicode_encode_error
      else Inr (w\<lparr>stdout := stdout w @ format_help parser\<rparr>))"

text \<open>Python's truth value of an optional string: \<open>None\<close> and the empty string are false.\<close>

definition truthy :: "string option \<Rightarrow> bool" where
  "truthy s = (case s of None \<Rightarrow> False | Some v \<Rightarrow> v \<noteq> [])"

text \<open>The body of \<open>main()\<close> from the parsed arguments on (lines 81--89).\<close>

definition dispatch ::
  "'c env \<Rightarrow> argument_parser \<Rightarrow> args \<Rightarrow> 'c world \<Rightarrow> (exn + unit) \<times> 'c world" where
  "dispatch env parser a w =
     (if command a = Some ''webp2jpeg'' then
        (if os_path_isdir w (input a) then
           (case (if truthy (output' a) then
                    print env ''Warning: Output path is ignored when processing a directory'' w
                  else Inr w) of
              Inl e \<Rightarrow> (Inl e, w)
            | Inr w' \<Rightarrow>
                batch_convert_webp_to_jpeg env (input a) (quality a) (recursive a) w')
         else
           (case convert_webp_to_jpeg env (input a) (output' a) (quality a) w of
              (Inl e, w') \<Rightarrow> (Inl e, w')
            | (Inr r, w') \<Rightarrow> (Inr (), w')))
      else
        (case print_help env parser w of
           Inl e \<Rightarrow> (Inl e, w)
         | Inr w' \<Rightarrow> (Inr (), w')))"

text \<open>
  \<open>main()\<close> on the arguments of the command line (lines 69--89): the parser is built
  and asked first. For \<open>-h\<close> it prints the help and exits with status 0; for arguments
  it rejects it writes the usage and \<open>prog: error: message\<close> to standard error and
  exits with status 2; neither reaches line 81.
\<close>

definition main ::
  "'c env \<Rightarrow> argument_parser \<Rightarrow> string list \<Rightarrow> 'c world \<Rightarrow> ending \<times> 'c world" where
  "main env parser argv w =
     (case parse_args parser argv of
        Namespace a \<Rightarrow> ended (dispatch env parser a w)
      | Help_requested \<Rightarrow>
          (case print_help env parser w of
             Inl e \<Rightarrow> (Raised e, w)
           | Inr w' \<Rightarrow> (Exited 0, w'))
      | Usage_error usage message \<Rightarrow>
          (Exited 2, w\<lparr>stderr := stderr w @ usage @ [prog parser @ '': error: '' @ message]\<rparr>))"

section \<open>Notions the properties are stated with\<close>

text \<open>The state after a line was written to standard output.\<close>

definition printed :: "string \<Rightarrow> 'c world \<Rightarrow> 'c world" where
  "printed line w = w\<lparr>stdout := stdout w @ [line]\<rparr>"

text \<open>
  What the handler of the converter does with an exception \<open>e\<close> caught in the state
  \<open>w\<close>: it prints the line that names the input path and the cause and the result is
  \<open>None\<close>; when that \<open>print\<close> raises, its exception leaves the converter.
\<close>

definition reported_failure ::
  "'c env \<Rightarrow> string \<Rightarrow> exn \<Rightarrow> 'c world \<Rightarrow> (exn + string option) \<times> 'c world" where
  "reported_failure env input_path e w =
     (case print env (''Error converting '' @ input_path @ '': '' @ str_exn e) w of
        Inl e' \<Rightarrow> (Inl e', w)
      | Inr w' \<Rightarrow> (Inr None, w'))"

text \<open>The output path of a call: the one supplied, or the derived one.\<close>

definition chosen_output_path :: "string \<Rightarrow> string option \<Rightarrow> string" where
  "chosen_output_path input_path output_path =
     (case output_path of None \<Rightarrow> derive_output_path input_path | Some p \<Rightarrow> p)"

text \<open>
  The end of a conversion whose file was saved, in the state \<open>w\<close> after the save: the
  confirmation is printed and the result is the output path; when that \<open>print\<close>
  raises, the handler takes over.
\<close>

definition reported_success ::
  "'c env \<Rightarrow> string \<Rightarrow> string \<Rightarrow> 'c world \<Rightarrow> (exn + string option) \<times> 'c world" where
  "reported_success env input_path out w =
     (case print env (''Converted: '' @ input_path @ '' -> '' @ out) w of
        Inl e \<Rightarrow> reported_failure env input_path e w
      | Inr w' \<Rightarrow> (Inr (Some out), w'))"

text \<open>Encoding an image as JPEG at a path and reporting the outcome.\<close>

definition encoded_and_reported ::
  "'c env \<Rightarrow> string \<Rightarrow> string \<Rightarrow> image \<Rightarrow> int \<Rightarrow> 'c world
     \<Rightarrow> (exn + string option) \<times> 'c world" where
  "encoded_and_reported env input_path out img q w =
     (case save env img out ''JPEG'' q w of
        Inl e \<Rightarrow> reported_failure env input_path e w
      | Inr w' \<Rightarrow> reported_success env input_path out w')"

text \<open>
  The image the converter hands to the encoder (lines 34--41, the two \<open>save\<close> calls
  apart): the composite for the modes \<open>RGBA\<close> and \<open>LA\<close>, the conversion to \<open>RGB\<close> for
  every other mode.
\<close>

definition encoder_input :: "'c env \<Rightarrow> image \<Rightarrow> exn + image" where
  "encoder_input env img =
     (if im_mode img = ''RGBA'' \<or> im_mode img = ''LA'' then
        (case getitem (split img) (if im_mode img = ''RGBA'' then 3 else 1) of
           Inl e \<Rightarrow> Inl e
         | Inr msk \<Rightarrow> paste (Image_new ''RGB'' (im_size img) [255, 255, 255]) img msk)
      else convert_mode env img ''RGB'')"

text \<open>
  A decoded image with an alpha channel has the bands of its mode (four for \<open>RGBA\<close>, two
  for \<open>LA\<close>), each with one sample per pixel.
\<close>

definition wf_image :: "image \<Rightarrow> bool" where
  "wf_image img =
     (list_all (\<lambda>b. length b = npixels img) (im_bands img)
      \<and> (if im_mode img = ''RGBA'' then length (im_bands img) = 4
         else if im_mode img = ''LA'' then length (im_bands img) = 2
         else True))"

text \<open>
  Pixel \<open>i\<close> of an image with an alpha channel: its alpha sample (the last band) and
  its colour as an \<open>RGB\<close> triple (the grey level three times for \<open>LA\<close>); and pixel
  \<open>i\<close> of any image as the list of its samples.
\<close>

definition alpha_at :: "image \<Rightarrow> nat \<Rightarrow> 8 word" where
  "alpha_at img i = last (im_bands img) ! i"

definition colour_at :: "image \<Rightarrow> nat \<Rightarrow> 8 word list" where
  "colour_at img i =
     (if im_mode img = ''LA'' then replicate 3 (hd (im_bands img) ! i)
      else map (\<lambda>b. b ! i) (take 3 (im_bands img)))"

definition pixel_at :: "image \<Rightarrow> nat \<Rightarrow> 8 word list" where
  "pixel_at img i = map (\<lambda>b. b ! i) (im_bands img)"

text \<open>
  The transparency policy: \<open>bg\<close> is an opaque \<open>RGB\<close> image of the size of \<open>img\<close>;
  each of its pixels is the colour of \<open>img\<close> blended onto white through the alpha of
  \<open>img\<close>, hence white wherever \<open>img\<close> is fully transparent and of the colour of
  \<open>img\<close> wherever it is fully opaque.
\<close>

definition flattened_on_white :: "image \<Rightarrow> image \<Rightarrow> bool" where
  "flattened_on_white img bg =
     (im_mode bg = ''RGB'' \<and> im_size bg = im_size img \<and> length (im_bands bg) = 3
      \<and> list_all (\<lambda>b. length b = npixels img) (im_bands bg)
      \<and> (\<forall>i < npixels img.
            pixel_at bg i = map (BLEND8 (alpha_at img i) 255) (colour_at img i)
            \<and> (alpha_at img i = 0 \<longrightarrow> pixel_at bg i = [255, 255, 255])
            \<and> (alpha_at img i = 255 \<longrightarrow> pixel_at bg i = colour_at img i)))"

section \<open>A sample run\<close>

text \<open>
  A small world to run the program in: the directory \<open>pics\<close> with an \<open>RGBA\<close> image of
  two pixels (one fully transparent, one fully opaque), a file that does not decode, an
  \<open>RGB\<close> image under an upper-case extension, a file of another format, a directory
  whose name ends in \<open>.webp\<close> and a subdirectory with one more image. A file's content
  is the image it decodes to (no bands: not an image); the sample encoder accepts the
  qualities 1 to 100, and standard output is strict.
\<close>

definition sample_rgba :: image where
  "sample_rgba =
     \<lparr>im_mode = ''RGBA'', im_size = (2, 1),
      im_bands = [[10, 20], [30, 40], [50, 60], [0, 255]]\<rparr>"

definition sample_rgb :: image where
  "sample_rgb = \<lparr>im_mode = ''RGB'', im_size = (1, 1), im_bands = [[1], [2], [3]]\<rparr>"

definition sample_corrupt :: image where
  "sample_corrupt = \<lparr>im_mode = [], im_size = (0, 0), im_bands = []\<rparr>"

definition sample_env :: "image env" where
  "sample_env =
     \<lparr>decode = (\<lambda>c. if im_bands c = []
                      then Inl (Exception ''UnidentifiedImageError'' ''cannot identify image file'')
                      else Inr c),
      convert_mode = (\<lambda>img m. if im_mode img = m then Inr img
                      else Inl (Exception ''ValueError'' ''conversion not supported'')),
      encode_jpeg = (\<lambda>img q. if 1 \<le> q \<and> q \<le> 100 then Inr img
                      else Inl (Exception ''ValueError'' ''bad quality'')),
      write_error = (\<lambda>p. None),
      stdout_strict = True\<rparr>"

definition sample_world :: "image world" where
  "sample_world =
     \<lparr>fs_top = ''pics'',
      fs_tree = Directory
        [(''a.webp'', RegFile sample_rgba),
         (''broken.webp'', RegFile sample_corrupt),
         (''b.WEBP'', RegFile sample_rgb),
         (''c.png'', RegFile sample_rgb),
         (''dir.webp'', Directory []),
         (''sub'', Directory [(''d.webp'', RegFile sample_rgb)])],
      saved = [],
      stdout = [],
      stderr = []\<rparr>"

definition sample_flat :: image where
  "sample_flat =
     \<lparr>im_mode = ''RGB'', im_size = (2, 1), im_bands = [[255, 20], [255, 40], [255, 60]]\<rparr>"

text \<open>
  A directory with a file whose name is not well-formed UTF-8 (\<open>caf\<close>, the byte
  \<open>E9\<close>, \<open>.webp\<close>: a name written in Latin-1), listed before a sound image
  \<open>b.webp\<close>.
\<close>

definition latin_name :: string where
  "latin_name = ''caf'' @ [CHR 0xE9] @ ''.webp''"

definition latin_path :: string where
  "latin_path = ''pics/'' @ latin_name"

definition latin_world :: "image world" where
  "latin_world =
     \<lparr>fs_top = ''pics'',
      fs_tree = Directory
        [(latin_name, RegFile sample_corrupt),
         (''b.webp'', RegFile sample_rgb)],
      saved = [],
      stdout = [],
      stderr = []\<rparr>"

text \<open>
  The parser's answers on six invocations, as \<open>argparse\<close> of Python 3.10 gives them:
  no argument; the help option; a word that is not a command; the command on the
  directory \<open>pics\<close> with the output path \<open>custom.jpg\<close>, with the empty output
  path, and with no output path.
\<close>

definition sample_usage :: "string list" where
  "sample_usage = [''usage: image-format-converter.py [-h] {webp2jpeg} ...'']"

definition sample_parser :: argument_parser where
  "sample_parser =
     \<lparr>parse_args = (\<lambda>argv.
        if argv = [] then
          Namespace \<lparr>command = None, input = [], output' = None, quality = 90,
                     recursive = False\<rparr>
        else if argv = [''-h''] then Help_requested
        else if argv = [''png2jpeg''] then
          Usage_error sample_usage
            (''argument command: invalid choice: '' @ quoted ''png2jpeg''
             @ '' (choose from '' @ quoted ''webp2jpeg'' @ '')'')
        else if argv = [''webp2jpeg'', ''pics'', ''-o'', ''custom.jpg''] then
          Namespace \<lparr>command = Some ''webp2jpeg'', input = ''pics'',
                     output' = Some ''custom.jpg'', quality = 90, recursive = False\<rparr>
        else if argv = [''webp2jpeg'', ''pics'', ''-o'', []] then
          Namespace \<lparr>command = Some ''webp2jpeg'', input = ''pics'',
                     output' = Some [], quality = 90, recursive = False\<rparr>
        else if argv = [''webp2jpeg'', ''pics''] then
          Namespace \<lparr>command = Some ''webp2jpeg'', input = ''pics'',
                     output' = None, quality = 90, recursive = False\<rparr>
        else Usage_error sample_usage ''unrecognized arguments''),
      prog = ''image-format-converter.py'',
      format_usage = sample_usage,
      format_help_body =
        [[],
         ''Convert image formats'',
         [],
         ''positional arguments:'',
         ''  {webp2jpeg}  Commands'',
         ''    webp2jpeg  Convert WebP to JPEG'',
         [],
         ''options:'',
         ''  -h, --help   show this help message and exit'']\<rparr>"

section \<open>Notions for the batch walker\<close>

text \<open>
  The converter called on the paths of a list, in order, with no output path, each call
  starting from the state the one before left, whatever it returned; an exception that
  leaves a call ends the run there.
\<close>

fun convert_each ::
  "'c env \<Rightarrow> int \<Rightarrow> string list \<Rightarrow> 'c world \<Rightarrow> (exn + unit) \<times> 'c world" where
  "convert_each env q [] w = (Inr (), w)"
| "convert_each env q (p # ps) w =
     (case convert_webp_to_jpeg env p None q w of
        (Inl e, w') \<Rightarrow> (Inl e, w')
      | (Inr r, w') \<Rightarrow> convert_each env q ps w')"

text \<open>The names of a listing that end in \<open>.webp\<close>, letter case ignored, in listing order.\<close>

definition webp_names :: "string list \<Rightarrow> string list" where
  "webp_names names = filter (\<lambda>f. endswith (lower f) ''.webp'') names"

text \<open>
  The paths a batch run is about: without recursion the matching entries of the
  directory; with recursion the matching non-directory entries of every directory of
  the walk.
\<close>

definition walk_targets :: "(string \<times> string list \<times> string list) list \<Rightarrow> string list" where
  "walk_targets triples =
     concat (map (\<lambda>(root, dirs, files). map (join root) (webp_names files)) triples)"

definition batch_targets :: "'c world \<Rightarrow> string \<Rightarrow> bool \<Rightarrow> string list" where
  "batch_targets w directory rec =
     (if rec then walk_targets (os_walk w directory)
      else (case os_listdir w directory of
              Inl e \<Rightarrow> []
            | Inr names \<Rightarrow> map (join directory) (webp_names names)))"


text \<open>An empty directory \<open>pics\<close>, nothing saved, nothing printed.\<close>

definition empty_world :: "image world" where
  "empty_world =
     \<lparr>fs_top = ''pics'', fs_tree = Directory [], saved = [], stdout = [], stderr = []\<rparr>"

section \<open>Path derivation\<close>

lemma rfind_bounds: "- 1 \<le> rfind p c \<and> rfind p c < int (length p)"
  by (induction p) (auto simp: Let_def)

lemma rfind_neg_iff: "rfind p c < 0 \<longleftrightarrow> c \<notin> set p"
  by (induction p) (auto simp: Let_def)

lemma rfind_nth: "0 \<le> rfind p c \<Longrightarrow> p ! nat (rfind p c) = c"
proof (induction p)
  case Nil
  then show ?case by simp
next
  case (Cons x xs)
  show ?case
  proof (cases "0 \<le> rfind xs c")
    case True
    then have "nat (rfind xs c + 1) = Suc (nat (rfind xs c))" by simp
    with True Cons.IH show ?thesis by (simp add: Let_def)
  next
    case False
    with Cons.prems show ?thesis by (simp add: Let_def split: if_splits)
  qed
qed

lemma rfind_after: "c \<notin> set (drop (nat (rfind p c + 1)) p)"
proof (induction p)
  case Nil
  then show ?case by simp
next
  case (Cons x xs)
  show ?case
  proof (cases "0 \<le> rfind xs c")
    case True
    then have "nat (rfind xs c + 1 + 1) = Suc (nat (rfind xs c + 1))" by simp
    with True Cons.IH show ?thesis by (simp add: Let_def)
  next
    case False
    then have "c \<notin> set xs" using rfind_neg_iff [of xs c] by simp
    with False show ?thesis by (auto simp: Let_def dest: in_set_dropD)
  qed
qed

lemma rfind_append:
  "rfind (xs @ ys) c = (if c \<in> set ys then int (length xs) + rfind ys c else rfind xs c)"
proof (induction xs)
  case Nil
  then show ?case using rfind_neg_iff [of ys c] rfind_bounds [of ys c] by auto
next
  case (Cons x xs)
  then show ?case using rfind_neg_iff [of ys c] rfind_neg_iff [of xs c] rfind_bounds [of ys c]
    by (auto simp: Let_def)
qed

lemma skip_leading_dots_iff:
  "skip_leading_dots p i d \<longleftrightarrow> (\<exists>k. i \<le> k \<and> k < d \<and> p ! k \<noteq> CHR ''.'')"
proof (induction p i d rule: skip_leading_dots.induct)
  case (1 p i d)
  show ?case
  proof (cases "i < d")
    case False
    then show ?thesis by (subst skip_leading_dots.simps) auto
  next
    case True
    show ?thesis
    proof (cases "p ! i \<noteq> CHR ''.''")
      case ndot: True
      with True show ?thesis by (subst skip_leading_dots.simps) auto
    next
      case dot: False
      then have eq: "skip_leading_dots p i d = skip_leading_dots p (Suc i) d"
        using True by (subst skip_leading_dots.simps) simp
      have "(\<exists>k. i \<le> k \<and> k < d \<and> p ! k \<noteq> CHR ''.'') \<longleftrightarrow>
            (\<exists>k. Suc i \<le> k \<and> k < d \<and> p ! k \<noteq> CHR ''.'')"
        using dot by (metis Suc_leD Suc_leI le_neq_implies_less)
      with eq "1.IH" [OF True] dot show ?thesis by simp
    qed
  qed
qed

lemma splitext_concat: "fst (splitext p) @ snd (splitext p) = p"
  by (simp add: splitext_def Let_def)

lemma splitext_ext_shape:
  "snd (splitext p) = [] \<or>
   (hd (snd (splitext p)) = CHR ''.'' \<and> CHR ''.'' \<notin> set (tl (snd (splitext p))))"
proof (cases "rfind p CHR ''/'' < rfind p CHR ''.'' \<and>
    skip_leading_dots p (nat (rfind p CHR ''/'' + 1)) (nat (rfind p CHR ''.''))")
  case False
  then show ?thesis by (auto simp: splitext_def Let_def)
next
  case True
  let ?d = "rfind p CHR ''.''"
  from True rfind_bounds [of p "CHR ''/''"] have nn: "0 \<le> ?d" by simp
  from rfind_bounds [of p "CHR ''.''"] nn have lt: "nat ?d < length p" by simp
  have ext: "snd (splitext p) = drop (nat ?d) p"
    using True by (simp add: splitext_def Let_def)
  have "hd (drop (nat ?d) p) = p ! nat ?d" using lt by (simp add: hd_drop_conv_nth)
  then have h: "hd (snd (splitext p)) = CHR ''.''" using rfind_nth [OF nn] ext by simp
  have "nat (?d + 1) = Suc (nat ?d)" using nn by simp
  then have "tl (drop (nat ?d) p) = drop (nat (?d + 1)) p" by (simp add: drop_Suc tl_drop)
  then have "CHR ''.'' \<notin> set (tl (snd (splitext p)))"
    using rfind_after [of "CHR ''.''" p] ext by simp
  with h show ?thesis by simp
qed

lemma splitext_ext_no_sep: "CHR ''/'' \<notin> set (snd (splitext p))"
proof (cases "rfind p CHR ''/'' < rfind p CHR ''.'' \<and>
    skip_leading_dots p (nat (rfind p CHR ''/'' + 1)) (nat (rfind p CHR ''.''))")
  case False
  then show ?thesis by (auto simp: splitext_def Let_def)
next
  case True
  then have le: "nat (rfind p CHR ''/'' + 1) \<le> nat (rfind p CHR ''.'')" by linarith
  have ext: "snd (splitext p) = drop (nat (rfind p CHR ''.'')) p"
    using True by (simp add: splitext_def Let_def)
  have "set (drop (nat (rfind p CHR ''.'')) p) \<subseteq> set (drop (nat (rfind p CHR ''/'' + 1)) p)"
    using le by (rule set_drop_subset_set_drop)
  with rfind_after [of "CHR ''/''" p] ext show ?thesis by auto
qed

lemma dir_prefix_append:
  "CHR ''/'' \<notin> set ys \<Longrightarrow> dir_prefix (xs @ ys) = dir_prefix xs"
proof -
  assume "CHR ''/'' \<notin> set ys"
  then have r: "rfind (xs @ ys) CHR ''/'' = rfind xs CHR ''/''" by (simp add: rfind_append)
  have "nat (rfind xs CHR ''/'' + 1) \<le> length xs"
    using rfind_bounds [of xs "CHR ''/''"] by linarith
  then show ?thesis by (simp add: dir_prefix_def r)
qed

lemma dir_prefix_derive: "dir_prefix (derive_output_path p) = dir_prefix p"
proof -
  have "dir_prefix (derive_output_path p) = dir_prefix (fst (splitext p))"
    unfolding derive_output_path_def by (rule dir_prefix_append) simp
  also have "\<dots> = dir_prefix (fst (splitext p) @ snd (splitext p))"
    by (rule dir_prefix_append [symmetric]) (rule splitext_ext_no_sep)
  finally show ?thesis by (simp add: splitext_concat)
qed

lemma rfind_snoc_same: "rfind (xs @ [c]) c = int (length xs)"
  by (simp add: rfind_append Let_def)

lemma rfind_absent: "c \<notin> set p \<Longrightarrow> rfind p c = - 1"
  using rfind_neg_iff [of p c] rfind_bounds [of p c] by simp

lemma splitext_named:
  assumes dir: "dir = [] \<or> last dir = CHR ''/''"
    and name: "CHR ''/'' \<notin> set name" "\<exists>c \<in> set name. c \<noteq> CHR ''.''"
    and e: "CHR ''/'' \<notin> set e" "CHR ''.'' \<notin> set e"
  shows "splitext (dir @ name @ CHR ''.'' # e) = (dir @ name, CHR ''.'' # e)"
proof -
  let ?p = "dir @ name @ CHR ''.'' # e"
  have dot: "rfind ?p CHR ''.'' = int (length (dir @ name))"
  proof -
    have "rfind ((dir @ name) @ CHR ''.'' # e) CHR ''.'' = int (length (dir @ name)) + rfind (CHR ''.'' # e) CHR ''.''"
      by (subst rfind_append) simp
    moreover have "rfind (CHR ''.'' # e) CHR ''.'' = 0"
      using rfind_absent [OF e(2)] by (simp add: Let_def)
    ultimately show ?thesis by simp
  qed
  have sep: "rfind ?p CHR ''/'' = int (length dir) - 1"
  proof -
    have "CHR ''/'' \<notin> set (name @ CHR ''.'' # e)" using name(1) e(1) by simp
    then have "rfind (dir @ (name @ CHR ''.'' # e)) CHR ''/'' = rfind dir CHR ''/''"
      by (subst rfind_append) simp
    moreover have "rfind dir CHR ''/'' = int (length dir) - 1"
    proof (cases "dir = []")
      case True
      then show ?thesis by simp
    next
      case False
      with dir have "dir = butlast dir @ [CHR ''/'']" by (metis append_butlast_last_id)
      then have "rfind dir CHR ''/'' = int (length (butlast dir))"
        using rfind_snoc_same [of "butlast dir" "CHR ''/''"] by simp
      with False show ?thesis by (simp add: of_nat_diff Suc_leI)
    qed
    ultimately show ?thesis by simp
  qed
  from name(2) obtain c where c: "c \<in> set name" "c \<noteq> CHR ''.''" by blast
  then obtain j where j: "j < length name" "name ! j = c" by (auto simp: in_set_conv_nth)
  have "?p ! (length dir + j) = c" using j by (simp add: nth_append)
  then have "\<exists>k. length dir \<le> k \<and> k < length (dir @ name) \<and> ?p ! k \<noteq> CHR ''.''"
    using c(2) j(1) by (intro exI [of _ "length dir + j"]) simp
  then have skip: "skip_leading_dots ?p (length dir) (length (dir @ name))"
    by (simp only: skip_leading_dots_iff)
  have n1: "nat (rfind ?p CHR ''/'' + 1) = length dir" using sep by simp
  have n2: "nat (rfind ?p CHR ''.'') = length (dir @ name)" using dot by simp
  have lt: "rfind ?p CHR ''/'' < rfind ?p CHR ''.''" using sep dot by simp
  show ?thesis
    unfolding splitext_def Let_def n1 n2 using lt skip by simp
qed

lemma try_block_path:
  "try_block env input_path None q w = (Inr out, w') \<Longrightarrow> out = derive_output_path input_path"
  by (simp add: try_block_def Let_def split: sum.splits)

lemma convert_derives_path:
  "(\<exists>e. fst (convert_webp_to_jpeg env input_path None q w) = Inl e)
   \<or> fst (convert_webp_to_jpeg env input_path None q w) = Inr None
   \<or> fst (convert_webp_to_jpeg env input_path None q w)
        = Inr (Some (derive_output_path input_path))"
proof (cases "try_block env input_path None q w")
  case (Pair r w')
  show ?thesis
  proof (cases r)
    case (Inr out)
    with Pair try_block_path [of env input_path q w out w'] show ?thesis
      by (simp add: convert_webp_to_jpeg_def)
  next
    case (Inl e)
    with Pair show ?thesis
      by (cases "print env (''Error converting '' @ input_path @ '': '' @ str_exn e) w'")
        (simp_all add: convert_webp_to_jpeg_def)
  qed
qed

text \<open>
  Claim C3. With no output path supplied, the output path is the input path with its
  extension replaced by \<open>.jpg\<close>: the input is stem plus extension, the extension is
  empty or one dot followed by characters that are neither dots nor separators, the
  output is the stem plus \<open>.jpg\<close>, and the directory part is unchanged. For a name with
  a character other than a dot before its last dot, the text after that dot is what is
  replaced. The derivation depends on the input path alone: whatever the codecs, the
  quality and the state of the run, a conversion that returns a path returns this one.
\<close>

theorem derived_output_path:
  "input_path = fst (splitext input_path) @ snd (splitext input_path)
   \<and> derive_output_path input_path = fst (splitext input_path) @ ''.jpg''
   \<and> (snd (splitext input_path) = [] \<or>
        (hd (snd (splitext input_path)) = CHR ''.'' \<and>
         CHR ''.'' \<notin> set (tl (snd (splitext input_path)))))
   \<and> CHR ''/'' \<notin> set (snd (splitext input_path))
   \<and> dir_prefix (derive_output_path input_path) = dir_prefix input_path
   \<and> (\<forall>dir name e.
         input_path = dir @ name @ CHR ''.'' # e \<and> (dir = [] \<or> last dir = CHR ''/'')
         \<and> CHR ''/'' \<notin> set name \<and> (\<exists>c \<in> set name. c \<noteq> CHR ''.'')
         \<and> CHR ''/'' \<notin> set e \<and> CHR ''.'' \<notin> set e
         \<longrightarrow> derive_output_path input_path = dir @ name @ ''.jpg'')
   \<and> (\<forall>env q w.
         (\<exists>e. fst (convert_webp_to_jpeg env input_path None q w) = Inl e)
         \<or> fst (convert_webp_to_jpeg env input_path None q w) = Inr None
         \<or> fst (convert_webp_to_jpeg env input_path None q w)
              = Inr (Some (derive_output_path input_path)))"
proof (intro conjI allI impI)
  show "input_path = fst (splitext input_path) @ snd (splitext input_path)"
    by (simp add: splitext_concat)
  show "derive_output_path input_path = fst (splitext input_path) @ ''.jpg''"
    by (simp add: derive_output_path_def)
  show "snd (splitext input_path) = [] \<or>
        (hd (snd (splitext input_path)) = CHR ''.'' \<and>
         CHR ''.'' \<notin> set (tl (snd (splitext input_path))))"
    by (rule splitext_ext_shape)
  show "CHR ''/'' \<notin> set (snd (splitext input_path))" by (rule splitext_ext_no_sep)
  show "dir_prefix (derive_output_path input_path) = dir_prefix input_path"
    by (rule dir_prefix_derive)
next
  fix dir name e
  assume a: "input_path = dir @ name @ CHR ''.'' # e \<and> (dir = [] \<or> last dir = CHR ''/'')
         \<and> CHR ''/'' \<notin> set name \<and> (\<exists>c \<in> set name. c \<noteq> CHR ''.'')
         \<and> CHR ''/'' \<notin> set e \<and> CHR ''.'' \<notin> set e"
  then have "splitext input_path = (dir @ name, CHR ''.'' # e)"
    using splitext_named [of dir name e] by simp
  then show "derive_output_path input_path = dir @ name @ ''.jpg''"
    by (simp add: derive_output_path_def)
next
  fix env :: "'c env" and q w
  show "(\<exists>e. fst (convert_webp_to_jpeg env input_path None q w) = Inl e)
         \<or> fst (convert_webp_to_jpeg env input_path None q w) = Inr None
         \<or> fst (convert_webp_to_jpeg env input_path None q w)
              = Inr (Some (derive_output_path input_path))"
    by (rule convert_derives_path)
qed

theorem derived_output_path_witness:
  "derive_output_path ''pics/photo.webp'' = ''pics/photo.jpg''
   \<and> splitext ''pics/photo.webp'' = (''pics/photo'', ''.webp'')
   \<and> dir_prefix ''pics/photo.jpg'' = ''pics/''
   \<and> dir_prefix ''pics/photo.webp'' = ''pics/''"
proof -
  have d: "derive_output_path ''pics/photo.webp'' = ''pics/'' @ ''photo'' @ ''.jpg''"
    using derived_output_path [of "''pics/photo.webp''", THEN conjunct2, THEN conjunct2,
        THEN conjunct2, THEN conjunct2, THEN conjunct2, THEN conjunct1, rule_format,
        of "''pics/''" "''photo''" "''webp''"]
    by simp
  have s: "splitext ''pics/photo.webp'' = (''pics/photo'', ''.webp'')"
    by (simp add: splitext_def Let_def skip_leading_dots.simps)
  have p: "dir_prefix ''pics/photo.jpg'' = ''pics/''" "dir_prefix ''pics/photo.webp'' = ''pics/''"
    by (simp_all add: dir_prefix_def Let_def)
  from d s p show ?thesis by simp
qed

section \<open>The transparency policy\<close>

lemma try_block_steps:
  "try_block env input_path output_path q w =
     (case Image_open env w input_path of
        Inl e \<Rightarrow> (Inl e, w)
      | Inr img \<Rightarrow>
          (case encoder_input env img of
             Inl e \<Rightarrow> (Inl e, w)
           | Inr rgb \<Rightarrow>
               (case save env rgb (chosen_output_path input_path output_path) ''JPEG'' q w of
                  Inl e \<Rightarrow> (Inl e, w)
                | Inr w' \<Rightarrow>
                    (case print env (''Converted: '' @ input_path @ '' -> ''
                                      @ chosen_output_path input_path output_path) w' of
                       Inl e \<Rightarrow> (Inl e, w')
                     | Inr w'' \<Rightarrow> (Inr (chosen_output_path input_path output_path), w'')))))"
  by (simp add: try_block_def encoder_input_def chosen_output_path_def Let_def
      split: sum.splits option.splits)

lemma convert_steps:
  "convert_webp_to_jpeg env input_path output_path q w =
     (case Image_open env w input_path of
        Inl e \<Rightarrow> reported_failure env input_path e w
      | Inr img \<Rightarrow>
          (case encoder_input env img of
             Inl e \<Rightarrow> reported_failure env input_path e w
           | Inr rgb \<Rightarrow>
               encoded_and_reported env input_path
                 (chosen_output_path input_path output_path) rgb q w))"
  by (simp add: convert_webp_to_jpeg_def try_block_steps reported_failure_def
      reported_success_def encoded_and_reported_def split: sum.splits)

lemma DIV255_scaled: "x < 256 \<Longrightarrow> DIV255 (x * 255) = x"
  unfolding DIV255_def Let_def by arith

lemma unat_byte_less: "unat (x :: 8 word) < 256"
  using unsigned_less [of x, where ?'a = nat] by simp

lemma BLEND8_transparent: "BLEND8 0 d s = d"
  by (simp add: BLEND8_def DIV255_scaled [OF unat_byte_less])

lemma BLEND8_opaque: "BLEND8 255 d s = s"
  by (simp add: BLEND8_def DIV255_scaled [OF unat_byte_less])

lemma blend_band_length:
  "length d = length m \<Longrightarrow> length s = length m \<Longrightarrow> length (blend_band m d s) = length m"
  by (simp add: blend_band_def)

lemma blend_band_nth:
  "i < length m \<Longrightarrow> length d = length m \<Longrightarrow> length s = length m \<Longrightarrow>
   blend_band m d s ! i = BLEND8 (m ! i) (d ! i) (s ! i)"
  by (simp add: blend_band_def)

lemma blend_on_white_nth:
  assumes "i < n" "length m = n" "length s = n"
  shows "(m ! i = 0 \<longrightarrow> blend_band m (replicate n 255) s ! i = 255)
         \<and> (m ! i = 255 \<longrightarrow> blend_band m (replicate n 255) s ! i = s ! i)"
  using assms by (simp add: blend_band_nth BLEND8_transparent BLEND8_opaque)

lemma list_of_length_4: "length xs = 4 \<Longrightarrow> \<exists>a b c d. xs = [a, b, c, d]"
  by (cases xs; simp; cases "tl xs"; simp; cases "tl (tl xs)"; simp;
      cases "tl (tl (tl xs))"; simp) 

lemma list_of_length_2: "length xs = 2 \<Longrightarrow> \<exists>a b. xs = [a, b]"
  by (cases xs; simp; cases "tl xs"; simp)

lemma encoder_input_RGBA:
  assumes "im_mode img = ''RGBA''" "im_bands img = [r, g, b, a]"
  shows "encoder_input env img =
           Inr \<lparr>im_mode = ''RGB'', im_size = im_size img,
                im_bands = [blend_band a (replicate (npixels img) 255) r,
                            blend_band a (replicate (npixels img) 255) g,
                            blend_band a (replicate (npixels img) 255) b]\<rparr>"
  using assms
  by (simp add: encoder_input_def getitem_def split_def paste_def Image_new_def
      paste_source_bands_def npixels_def)

lemma encoder_input_LA:
  assumes "im_mode img = ''LA''" "im_bands img = [l, a]"
  shows "encoder_input env img =
           Inr \<lparr>im_mode = ''RGB'', im_size = im_size img,
                im_bands = [blend_band a (replicate (npixels img) 255) l,
                            blend_band a (replicate (npixels img) 255) l,
                            blend_band a (replicate (npixels img) 255) l]\<rparr>"
  using assms
  by (simp add: encoder_input_def getitem_def split_def paste_def Image_new_def
      paste_source_bands_def npixels_def numeral_3_eq_3)

lemma flattened_RGBA:
  assumes m: "im_mode img = ''RGBA''" and wf: "wf_image img"
  shows "\<exists>bg. encoder_input env img = Inr bg \<and> flattened_on_white img bg"
proof -
  from m wf have "length (im_bands img) = 4" by (simp add: wf_image_def)
  then obtain r g b a where bands: "im_bands img = [r, g, b, a]"
    using list_of_length_4 by blast
  let ?n = "npixels img"
  from wf bands have len: "length r = ?n" "length g = ?n" "length b = ?n" "length a = ?n"
    by (simp_all add: wf_image_def)
  let ?W = "replicate ?n (255 :: 8 word)"
  let ?bg = "\<lparr>im_mode = ''RGB'', im_size = im_size img,
                im_bands = [blend_band a ?W r, blend_band a ?W g, blend_band a ?W b]\<rparr>"
  have e: "encoder_input env img = Inr ?bg" by (rule encoder_input_RGBA [OF m bands])
  have "flattened_on_white img ?bg"
    unfolding flattened_on_white_def
  proof (intro conjI allI impI)
    show "list_all (\<lambda>b. length b = ?n) (im_bands ?bg)"
      using len by (simp add: blend_band_length)
  next
    fix i assume i: "i < ?n"
    then show "pixel_at ?bg i = map (BLEND8 (alpha_at img i) 255) (colour_at img i)"
      using len m by (simp add: pixel_at_def colour_at_def alpha_at_def bands blend_band_nth)
  next
    fix i assume i: "i < ?n" and "alpha_at img i = 0"
    then have "a ! i = 0" by (simp add: alpha_at_def bands)
    then show "pixel_at ?bg i = [255, 255, 255]"
      using blend_on_white_nth [OF i len(4) len(1)] blend_on_white_nth [OF i len(4) len(2)]
        blend_on_white_nth [OF i len(4) len(3)]
      by (simp add: pixel_at_def)
  next
    fix i assume i: "i < ?n" and "alpha_at img i = 255"
    then have "a ! i = 255" by (simp add: alpha_at_def bands)
    then show "pixel_at ?bg i = colour_at img i"
      using blend_on_white_nth [OF i len(4) len(1)] blend_on_white_nth [OF i len(4) len(2)]
        blend_on_white_nth [OF i len(4) len(3)] m
      by (simp add: pixel_at_def colour_at_def bands)
  qed simp_all
  with e show ?thesis by blast
qed

lemma flattened_LA:
  assumes m: "im_mode img = ''LA''" and wf: "wf_image img"
  shows "\<exists>bg. encoder_input env img = Inr bg \<and> flattened_on_white img bg"
proof -
  from m wf have "length (im_bands img) = 2" by (simp add: wf_image_def)
  then obtain l a where bands: "im_bands img = [l, a]"
    using list_of_length_2 by blast
  let ?n = "npixels img"
  from wf bands have len: "length l = ?n" "length a = ?n"
    by (simp_all add: wf_image_def)
  let ?W = "replicate ?n (255 :: 8 word)"
  let ?bg = "\<lparr>im_mode = ''RGB'', im_size = im_size img,
                im_bands = [blend_band a ?W l, blend_band a ?W l, blend_band a ?W l]\<rparr>"
  have e: "encoder_input env img = Inr ?bg" by (rule encoder_input_LA [OF m bands])
  have "flattened_on_white img ?bg"
    unfolding flattened_on_white_def
  proof (intro conjI allI impI)
    show "list_all (\<lambda>b. length b = ?n) (im_bands ?bg)"
      using len by (simp add: blend_band_length)
  next
    fix i assume i: "i < ?n"
    then show "pixel_at ?bg i = map (BLEND8 (alpha_at img i) 255) (colour_at img i)"
      using len m
      by (simp add: pixel_at_def colour_at_def alpha_at_def bands blend_band_nth numeral_3_eq_3)
  next
    fix i assume i: "i < ?n" and "alpha_at img i = 0"
    then have "a ! i = 0" by (simp add: alpha_at_def bands)
    then show "pixel_at ?bg i = [255, 255, 255]"
      using blend_on_white_nth [OF i len(2) len(1)]
      by (simp add: pixel_at_def)
  next
    fix i assume i: "i < ?n" and "alpha_at img i = 255"
    then have "a ! i = 255" by (simp add: alpha_at_def bands)
    then show "pixel_at ?bg i = colour_at img i"
      using blend_on_white_nth [OF i len(2) len(1)] m
      by (simp add: pixel_at_def colour_at_def bands numeral_3_eq_3)
  qed simp_all
  with e show ?thesis by blast
qed

lemma sample_open_rgba: "Image_open sample_env sample_world ''pics/a.webp'' = Inr sample_rgba"
  by (simp add: Image_open_def sample_env_def sample_world_def resolve_def join_def
      startswith_def endswith_def sample_rgba_def)

lemma sample_rgba_wf: "wf_image sample_rgba"
  by (simp add: wf_image_def sample_rgba_def npixels_def)

text \<open>
  Claim C1. An image that decodes with the mode \<open>RGBA\<close> or \<open>LA\<close> is pasted onto a
  white \<open>RGB\<close> canvas of its size through its alpha band, and the composite is what is
  encoded: every pixel is the source's colour blended onto white by the source's alpha,
  so it is white where the alpha was 0 and the source's colour where it was 255. An image
  of any other mode is converted to \<open>RGB\<close> and the conversion is what is encoded.
\<close>

theorem transparency_policy:
  assumes "Image_open env w input_path = Inr img" and "wf_image img"
  shows "(im_mode img = ''RGBA'' \<or> im_mode img = ''LA'' \<longrightarrow>
            (\<exists>bg. flattened_on_white img bg
                \<and> convert_webp_to_jpeg env input_path output_path q w
                    = encoded_and_reported env input_path
                        (chosen_output_path input_path output_path) bg q w))
         \<and> (im_mode img \<noteq> ''RGBA'' \<and> im_mode img \<noteq> ''LA'' \<longrightarrow>
              (case convert_mode env img ''RGB'' of
                 Inl e \<Rightarrow>
                   convert_webp_to_jpeg env input_path output_path q w
                     = reported_failure env input_path e w
               | Inr rgb \<Rightarrow>
                   convert_webp_to_jpeg env input_path output_path q w
                     = encoded_and_reported env input_path
                         (chosen_output_path input_path output_path) rgb q w))"
proof (intro conjI impI)
  assume "im_mode img = ''RGBA'' \<or> im_mode img = ''LA''"
  then obtain bg where bg: "encoder_input env img = Inr bg" "flattened_on_white img bg"
    using flattened_RGBA [OF _ assms(2)] flattened_LA [OF _ assms(2)] by blast
  have "convert_webp_to_jpeg env input_path output_path q w
          = encoded_and_reported env input_path
              (chosen_output_path input_path output_path) bg q w"
    by (simp add: convert_steps assms(1) bg(1))
  with bg(2) show "\<exists>bg. flattened_on_white img bg
                \<and> convert_webp_to_jpeg env input_path output_path q w
                    = encoded_and_reported env input_path
                        (chosen_output_path input_path output_path) bg q w"
    by blast
next
  assume "im_mode img \<noteq> ''RGBA'' \<and> im_mode img \<noteq> ''LA''"
  then have "encoder_input env img = convert_mode env img ''RGB''"
    by (simp add: encoder_input_def)
  then show "case convert_mode env img ''RGB'' of
                 Inl e \<Rightarrow>
                   convert_webp_to_jpeg env input_path output_path q w
                     = reported_failure env input_path e w
               | Inr rgb \<Rightarrow>
                   convert_webp_to_jpeg env input_path output_path q w
                     = encoded_and_reported env input_path
                         (chosen_output_path input_path output_path) rgb q w"
    by (simp add: convert_steps assms(1) split: sum.splits)
qed

lemma utf8_valid_ascii: "list_all (\<lambda>c. in_range c 0 127) s \<Longrightarrow> utf8_valid s"
  by (induction s) (simp_all add: utf8_followers_def)

lemma print_valid: "utf8_valid line \<Longrightarrow> print env line w = Inr (printed line w)"
  by (simp add: print_def printed_def)

lemma print_lenient: "\<not> stdout_strict env \<Longrightarrow> print env line w = Inr (printed line w)"
  by (simp add: print_def printed_def)


lemma sample_encoder_input:
  "encoder_input sample_env sample_rgba =
     Inr \<lparr>im_mode = ''RGB'', im_size = (2, 1), im_bands = [[255, 20], [255, 40], [255, 60]]\<rparr>"
proof -
  have m: "im_mode sample_rgba = ''RGBA''"
    and b: "im_bands sample_rgba = [[10, 20], [30, 40], [50, 60], [0, 255]]"
    by (simp_all add: sample_rgba_def)
  have n: "npixels sample_rgba = 2" "im_size sample_rgba = (2, 1)"
    by (simp_all add: npixels_def sample_rgba_def)
  have r: "replicate 2 (255 :: 8 word) = [255, 255]" by (simp add: numeral_2_eq_2)
  show ?thesis
    by (simp add: encoder_input_RGBA [OF m b] n r blend_band_def BLEND8_transparent BLEND8_opaque)
qed

lemma sample_derive: "derive_output_path ''pics/a.webp'' = ''pics/a.jpg''"
  by (simp add: derive_output_path_def splitext_def Let_def skip_leading_dots.simps)

lemma sample_resolve_out: "resolve sample_world ''pics/a.jpg'' = None"
  by (simp add: resolve_def sample_world_def join_def startswith_def endswith_def)

lemma sample_save:
  "save sample_env sample_flat ''pics/a.jpg'' ''JPEG'' 85 sample_world
     = Inr (sample_world\<lparr>saved := [(''pics/a.jpg'', sample_flat)]\<rparr>)"
proof -
  have "encode_jpeg sample_env sample_flat 85 = Inr sample_flat"
    and "write_error sample_env ''pics/a.jpg'' = None"
    by (simp_all add: sample_env_def)
  moreover have "saved sample_world = []" by (simp add: sample_world_def)
  ultimately show ?thesis by (simp add: save_def sample_resolve_out)
qed

lemma sample_line_valid: "utf8_valid ''Converted: pics/a.webp -> pics/a.jpg''"
  by (rule utf8_valid_ascii) (simp add: in_range_def)

lemma sample_convert:
  "convert_webp_to_jpeg sample_env ''pics/a.webp'' None 85 sample_world
     = (Inr (Some ''pics/a.jpg''),
        printed ''Converted: pics/a.webp -> pics/a.jpg''
          (sample_world\<lparr>saved := [(''pics/a.jpg'', sample_flat)]\<rparr>))"
proof -
  have "convert_webp_to_jpeg sample_env ''pics/a.webp'' None 85 sample_world
     = encoded_and_reported sample_env ''pics/a.webp'' ''pics/a.jpg'' sample_flat 85 sample_world"
    by (simp add: convert_steps sample_open_rgba sample_encoder_input chosen_output_path_def
        sample_derive sample_flat_def)
  moreover have "print sample_env ''Converted: pics/a.webp -> pics/a.jpg''
                   (sample_world\<lparr>saved := [(''pics/a.jpg'', sample_flat)]\<rparr>)
                 = Inr (printed ''Converted: pics/a.webp -> pics/a.jpg''
                          (sample_world\<lparr>saved := [(''pics/a.jpg'', sample_flat)]\<rparr>))"
    using sample_line_valid by (rule print_valid)
  ultimately show ?thesis
    by (simp add: encoded_and_reported_def reported_success_def sample_save)
qed

theorem transparency_policy_witness:
  "Image_open sample_env sample_world ''pics/a.webp'' = Inr sample_rgba
   \<and> wf_image sample_rgba
   \<and> im_mode sample_rgba = ''RGBA''
   \<and> alpha_at sample_rgba 0 = 0 \<and> alpha_at sample_rgba 1 = 255
   \<and> (\<exists>bg. flattened_on_white sample_rgba bg
         \<and> convert_webp_to_jpeg sample_env ''pics/a.webp'' None 85 sample_world
             = encoded_and_reported sample_env ''pics/a.webp''
                 (chosen_output_path ''pics/a.webp'' None) bg 85 sample_world)
   \<and> convert_webp_to_jpeg sample_env ''pics/a.webp'' None 85 sample_world
       = (Inr (Some ''pics/a.jpg''),
          printed ''Converted: pics/a.webp -> pics/a.jpg''
            (sample_world\<lparr>saved := [(''pics/a.jpg'', sample_flat)]\<rparr>))"
proof -
  have m: "im_mode sample_rgba = ''RGBA''" by (simp add: sample_rgba_def)
  have a: "alpha_at sample_rgba 0 = 0" "alpha_at sample_rgba 1 = 255"
    by (simp_all add: alpha_at_def sample_rgba_def)
  from transparency_policy [OF sample_open_rgba sample_rgba_wf, of None 85] m
  have "\<exists>bg. flattened_on_white sample_rgba bg
         \<and> convert_webp_to_jpeg sample_env ''pics/a.webp'' None 85 sample_world
             = encoded_and_reported sample_env ''pics/a.webp''
                 (chosen_output_path ''pics/a.webp'' None) bg 85 sample_world"
    by simp
  with sample_open_rgba sample_rgba_wf m a sample_convert show ?thesis
    by (intro conjI) assumption+
qed

section \<open>Failures of a conversion\<close>

lemma convert_cases:
  "(\<exists>e. convert_webp_to_jpeg env p out q w = reported_failure env p e w)
   \<or> (\<exists>w' img. save env img (chosen_output_path p out) ''JPEG'' q w = Inr w'
         \<and> convert_webp_to_jpeg env p out q w
             = reported_success env p (chosen_output_path p out) w')"
  by (auto simp: convert_steps encoded_and_reported_def split: sum.splits)


lemma latin_line_invalid:
  "\<not> utf8_valid (''Error converting '' @ latin_path @ '': '' @ m)"
  by (simp add: latin_path_def latin_name_def utf8_followers_def in_range_def)

lemma latin_open:
  "Image_open sample_env latin_world latin_path
     = Inl (Exception ''UnidentifiedImageError'' ''cannot identify image file'')"
  by (simp add: Image_open_def sample_env_def latin_world_def resolve_def join_def
      startswith_def endswith_def sample_corrupt_def latin_path_def latin_name_def)

text \<open>
  Claim C2, which the code breaks. The claim is that no exception leaves the converter:
  a failure is reported and the result is \<open>None\<close>. The \<open>print\<close> that reports
  it stands in the handler, outside the \<open>try\<close>. Here the file \<open>caf\<close>,
  \<open>E9\<close>, \<open>.webp\<close> (a name that is not well-formed UTF-8) does not decode,
  standard output is strict, the failure line cannot be encoded, and
  \<open>UnicodeEncodeError\<close> leaves the converter with nothing printed.
\<close>

theorem print_failure_leaves_converter:
  "Image_open sample_env latin_world latin_path
     = Inl (Exception ''UnidentifiedImageError'' ''cannot identify image file'')
   \<and> stdout_strict sample_env
   \<and> convert_webp_to_jpeg sample_env latin_path None 85 latin_world
       = (Inl unicode_encode_error, latin_world)"
proof -
  have s: "stdout_strict sample_env" by (simp add: sample_env_def)
  have "print sample_env
          (''Error converting '' @ latin_path @ '': ''
             @ str_exn (Exception ''UnidentifiedImageError'' ''cannot identify image file''))
          latin_world
        = Inl unicode_encode_error"
    using s latin_line_invalid by (simp add: print_def)
  then have "convert_webp_to_jpeg sample_env latin_path None 85 latin_world
       = (Inl unicode_encode_error, latin_world)"
    by (simp add: convert_steps latin_open reported_failure_def)
  with latin_open s show ?thesis by (intro conjI) assumption+
qed

section \<open>Quality\<close>






section \<open>Runs of the batch walker\<close>

lemma convert_each_append:
  "convert_each env q (xs @ ys) w =
     (case convert_each env q xs w of
        (Inl e, w') \<Rightarrow> (Inl e, w')
      | (Inr u, w') \<Rightarrow> convert_each env q ys w')"
  by (induction xs arbitrary: w) (simp_all split: prod.splits sum.splits)

lemma convert_files_each:
  "convert_files env q root files w = convert_each env q (map (join root) (webp_names files)) w"
  by (induction files arbitrary: w) (simp_all add: webp_names_def split: prod.splits sum.splits)

lemma convert_walk_each:
  "convert_walk env q triples w = convert_each env q (walk_targets triples) w"
proof (induction triples arbitrary: w)
  case Nil
  then show ?case by (simp add: walk_targets_def)
next
  case (Cons t ts)
  obtain root dirs files where t: "t = (root, dirs, files)" by (cases t)
  have "walk_targets (t # ts) = map (join root) (webp_names files) @ walk_targets ts"
    by (simp add: walk_targets_def t)
  then show ?case
    by (simp add: t Cons.IH convert_files_each convert_each_append split: prod.splits sum.splits)
qed

lemma batch_recursive_each:
  "batch_convert_webp_to_jpeg env directory q True w
     = convert_each env q (batch_targets w directory True) w"
  by (simp add: batch_convert_webp_to_jpeg_def batch_targets_def convert_walk_each)

lemma batch_flat_each:
  "os_listdir w directory = Inr names \<Longrightarrow>
   batch_convert_webp_to_jpeg env directory q False w
     = convert_each env q (batch_targets w directory False) w"
  by (simp add: batch_convert_webp_to_jpeg_def batch_targets_def convert_files_each)

lemma listdir_of_directory:
  "resolve w directory = Some (Directory es) \<Longrightarrow> os_listdir w directory = Inr (map fst es)"
  by (simp add: os_listdir_def)

lemma isdir_resolve:
  "os_path_isdir w p \<Longrightarrow> \<exists>es. resolve w p = Some (Directory es)"
  by (auto simp: os_path_isdir_def split: option.splits node.splits)

lemma batch_each:
  assumes "rec \<or> os_path_isdir w directory"
  shows "batch_convert_webp_to_jpeg env directory q rec w
           = convert_each env q (batch_targets w directory rec) w"
proof (cases rec)
  case True
  then show ?thesis by (simp add: batch_recursive_each)
next
  case False
  with assms obtain es where "resolve w directory = Some (Directory es)"
    using isdir_resolve by blast
  then have "os_listdir w directory = Inr (map fst es)" by (rule listdir_of_directory)
  with False show ?thesis by (simp add: batch_flat_each)
qed

text \<open>What one call of the converter does to the state.\<close>

lemma save_keeps:
  "save env img p fmt q w = Inr w' \<Longrightarrow>
   fs_top w' = fs_top w \<and> fs_tree w' = fs_tree w \<and> stdout w' = stdout w
   \<and> stderr w' = stderr w \<and> (\<exists>c. saved w' = (p, c) # saved w)"
  by (auto simp: save_def split: if_splits option.splits node.splits sum.splits)

lemma print_keeps:
  "print env line w = Inr w' \<Longrightarrow>
   fs_top w' = fs_top w \<and> fs_tree w' = fs_tree w \<and> saved w' = saved w
   \<and> stderr w' = stderr w \<and> stdout w' = stdout w @ [line]"
  by (auto simp: print_def split: if_splits)

lemma reported_failure_keeps:
  "fs_top (snd (reported_failure env p e w)) = fs_top w
   \<and> fs_tree (snd (reported_failure env p e w)) = fs_tree w
   \<and> saved (snd (reported_failure env p e w)) = saved w
   \<and> stderr (snd (reported_failure env p e w)) = stderr w"
  by (auto simp: reported_failure_def split: sum.splits dest: print_keeps)

lemma reported_success_keeps:
  "fs_top (snd (reported_success env p out w)) = fs_top w
   \<and> fs_tree (snd (reported_success env p out w)) = fs_tree w
   \<and> saved (snd (reported_success env p out w)) = saved w
   \<and> stderr (snd (reported_success env p out w)) = stderr w"
  by (auto simp: reported_success_def reported_failure_keeps split: sum.splits dest: print_keeps)




lemma print_keeps_resolve: "print env line w = Inr w' \<Longrightarrow> resolve w' = resolve w"
  by (rule ext) (auto simp: resolve_def dest: print_keeps)

lemma printed_keeps_resolve: "resolve (printed line w) = resolve w"
  by (rule ext) (simp add: resolve_def printed_def)






lemma convert_saved:
  "saved (snd (convert_webp_to_jpeg env p None q w)) = saved w
   \<or> (\<exists>c. saved (snd (convert_webp_to_jpeg env p None q w)) = (derive_output_path p, c) # saved w)"
  using convert_cases [of env p None q w]
  by (auto simp: reported_failure_keeps reported_success_keeps chosen_output_path_def
      dest: save_keeps)

lemma convert_each_saved:
  "\<exists>new. saved (snd (convert_each env q ps w)) = new @ saved w
     \<and> list_all (\<lambda>(out, c). out \<in> derive_output_path ` set ps) new"
proof (induction ps arbitrary: w)
  case Nil
  then show ?case by simp
next
  case (Cons p ps)
  obtain r w1 where c: "convert_webp_to_jpeg env p None q w = (r, w1)"
    by (cases "convert_webp_to_jpeg env p None q w")
  from convert_saved [of env p q w] c
  obtain n1 where n1: "saved w1 = n1 @ saved w"
    "list_all (\<lambda>(out, c). out \<in> derive_output_path ` set (p # ps)) n1"
    by (elim disjE exE) (fastforce intro: exI [of _ "[]"])+
  show ?case
  proof (cases r)
    case (Inl e)
    with c n1 show ?thesis by auto
  next
    case (Inr v)
    from Cons.IH [of w1]
    obtain n2 where n2: "saved (snd (convert_each env q ps w1)) = n2 @ saved w1"
      "list_all (\<lambda>(out, c). out \<in> derive_output_path ` set ps) n2" by blast
    have "list_all (\<lambda>(out, c). out \<in> derive_output_path ` set (p # ps)) n2"
      using n2(2) by (auto simp: list_all_iff)
    with n1 n2(1) c Inr have "saved (snd (convert_each env q (p # ps) w)) = (n2 @ n1) @ saved w
       \<and> list_all (\<lambda>(out, c). out \<in> derive_output_path ` set (p # ps)) (n2 @ n1)"
      by simp
    then show ?thesis by blast
  qed
qed






lemma sample_listdir:
  "os_listdir sample_world ''pics''
     = Inr [''a.webp'', ''broken.webp'', ''b.WEBP'', ''c.png'', ''dir.webp'', ''sub'']"
  by (simp add: os_listdir_def resolve_def sample_world_def)

lemma sample_webp_names:
  "webp_names [''a.webp'', ''broken.webp'', ''b.WEBP'', ''c.png'', ''dir.webp'', ''sub'']
     = [''a.webp'', ''broken.webp'', ''b.WEBP'', ''dir.webp'']"
  by (simp add: webp_names_def endswith_def lower_def lower_char_def)

lemma sample_walk:
  "os_walk sample_world ''pics''
     = [(''pics'', [''dir.webp'', ''sub''], [''a.webp'', ''broken.webp'', ''b.WEBP'', ''c.png'']),
        (''pics/dir.webp'', [], []),
        (''pics/sub'', [], [''d.webp''])]"
  by (simp add: os_walk_def resolve_def sample_world_def join_def startswith_def endswith_def)

lemma sample_targets_flat:
  "batch_targets sample_world ''pics'' False
     = [''pics/a.webp'', ''pics/broken.webp'', ''pics/b.WEBP'', ''pics/dir.webp'']"
  by (simp add: batch_targets_def sample_listdir sample_webp_names join_def startswith_def
      endswith_def)

lemma sample_targets_walk:
  "batch_targets sample_world ''pics'' True
     = [''pics/a.webp'', ''pics/broken.webp'', ''pics/b.WEBP'', ''pics/sub/d.webp'']"
  by (simp add: batch_targets_def sample_walk walk_targets_def webp_names_def lower_def
      lower_char_def join_def startswith_def endswith_def)












lemma sample_resolve_entries:
  "resolve sample_world ''pics''
     = Some (Directory
        [(''a.webp'', RegFile sample_rgba),
         (''broken.webp'', RegFile sample_corrupt),
         (''b.WEBP'', RegFile sample_rgb),
         (''c.png'', RegFile sample_rgb),
         (''dir.webp'', Directory []),
         (''sub'', Directory [(''d.webp'', RegFile sample_rgb)])])"
  by (simp add: resolve_def sample_world_def)


section \<open>A failure in the middle of a batch\<close>

lemma batch_each_nonempty:
  assumes "batch_targets w directory rec \<noteq> []"
  shows "batch_convert_webp_to_jpeg env directory q rec w
           = convert_each env q (batch_targets w directory rec) w"
proof (cases rec)
  case True
  then show ?thesis by (simp add: batch_recursive_each)
next
  case False
  with assms obtain names where "os_listdir w directory = Inr names"
    by (auto simp: batch_targets_def split: sum.splits)
  with False show ?thesis by (simp add: batch_flat_each)
qed

text \<open>
  A failure that the converter reports does not stop the walker: when the call on a
  target returns (with \<open>None\<close> or with a path), the targets after it are converted
  from the state that call left.
\<close>

lemma returned_call_does_not_stop_batch:
  assumes "batch_targets w directory rec = xs @ p # ys"
    and "convert_each env q xs w = (Inr (), w1)"
    and "convert_webp_to_jpeg env p None q w1 = (Inr r, w2)"
  shows "batch_convert_webp_to_jpeg env directory q rec w = convert_each env q ys w2"
proof -
  have "batch_convert_webp_to_jpeg env directory q rec w = convert_each env q (xs @ p # ys) w"
    using batch_each_nonempty [of w directory rec env q] assms(1) by simp
  also have "\<dots> = convert_each env q ys w2"
    by (simp add: convert_each_append assms(2,3))
  finally show ?thesis .
qed

text \<open>
  An exception that leaves the converter ends the walker: the targets after it are not
  attempted.
\<close>

lemma raising_call_stops_batch:
  assumes "batch_targets w directory rec = xs @ p # ys"
    and "convert_each env q xs w = (Inr (), w1)"
    and "convert_webp_to_jpeg env p None q w1 = (Inl e, w2)"
  shows "batch_convert_webp_to_jpeg env directory q rec w = (Inl e, w2)"
proof -
  have "batch_convert_webp_to_jpeg env directory q rec w = convert_each env q (xs @ p # ys) w"
    using batch_each_nonempty [of w directory rec env q] assms(1) by simp
  also have "\<dots> = (Inl e, w2)"
    by (simp add: convert_each_append assms(2,3))
  finally show ?thesis .
qed

lemma latin_listdir: "os_listdir latin_world ''pics'' = Inr [latin_name, ''b.webp'']"
  by (simp add: os_listdir_def resolve_def latin_world_def)

lemma latin_targets:
  "batch_targets latin_world ''pics'' False = [latin_path, ''pics/b.webp'']"
  by (simp add: batch_targets_def latin_listdir webp_names_def latin_name_def latin_path_def
      lower_def lower_char_def join_def startswith_def endswith_def)

lemma latin_convert:
  "convert_webp_to_jpeg sample_env latin_path None 85 latin_world
     = (Inl unicode_encode_error, latin_world)"
proof -
  have s: "stdout_strict sample_env" by (simp add: sample_env_def)
  have "print sample_env
          (''Error converting '' @ latin_path @ '': ''
             @ str_exn (Exception ''UnidentifiedImageError'' ''cannot identify image file''))
          latin_world
        = Inl unicode_encode_error"
    using s latin_line_invalid by (simp add: print_def)
  then show ?thesis
    by (simp add: convert_steps latin_open reported_failure_def)
qed

lemma latin_convert_b:
  "convert_webp_to_jpeg sample_env ''pics/b.webp'' None 85 latin_world
     = (Inr (Some ''pics/b.jpg''),
        printed ''Converted: pics/b.webp -> pics/b.jpg''
          (latin_world\<lparr>saved := [(''pics/b.jpg'', sample_rgb)]\<rparr>))"
proof -
  have o: "Image_open sample_env latin_world ''pics/b.webp'' = Inr sample_rgb"
    by (simp add: Image_open_def sample_env_def latin_world_def resolve_def join_def
        startswith_def endswith_def sample_rgb_def latin_name_def)
  have e: "encoder_input sample_env sample_rgb = Inr sample_rgb"
    by (simp add: encoder_input_def sample_env_def sample_rgb_def)
  have d: "chosen_output_path ''pics/b.webp'' None = ''pics/b.jpg''"
    by (simp add: chosen_output_path_def derive_output_path_def splitext_def Let_def
        skip_leading_dots.simps)
  have r: "resolve latin_world ''pics/b.jpg'' = None"
    by (simp add: resolve_def latin_world_def join_def startswith_def endswith_def
        latin_name_def)
  have sv: "save sample_env sample_rgb ''pics/b.jpg'' ''JPEG'' 85 latin_world
              = Inr (latin_world\<lparr>saved := [(''pics/b.jpg'', sample_rgb)]\<rparr>)"
    by (simp add: save_def r) (simp add: sample_env_def latin_world_def)
  have v: "utf8_valid ''Converted: pics/b.webp -> pics/b.jpg''"
    by (rule utf8_valid_ascii) (simp add: in_range_def)
  have p: "print sample_env ''Converted: pics/b.webp -> pics/b.jpg'' w
             = Inr (printed ''Converted: pics/b.webp -> pics/b.jpg'' w)" for w :: "image world"
    using v by (rule print_valid)
  show ?thesis
    by (simp add: convert_steps o e d encoded_and_reported_def sv reported_success_def p
        del: utf8_valid.simps)
qed

text \<open>
  Claim C6, which the code breaks. The claim is that a failure converting one file does
  not prevent the attempts on the files after it. The walker catches nothing, and the
  converter lets the exception of its handler's \<open>print\<close> out (see C2). Here the
  directory lists \<open>caf\<close>, \<open>E9\<close>, \<open>.webp\<close>, which does not decode, and then
  \<open>b.webp\<close>, which converts when tried alone. Standard output is strict: the failure
  of the first file cannot be reported, \<open>UnicodeEncodeError\<close> leaves the converter and
  the walker, and \<open>b.webp\<close> is never attempted: nothing is saved and nothing printed.
\<close>

theorem failure_ends_batch:
  "batch_targets latin_world ''pics'' False = [latin_path, ''pics/b.webp'']
   \<and> Image_open sample_env latin_world latin_path
       = Inl (Exception ''UnidentifiedImageError'' ''cannot identify image file'')
   \<and> convert_webp_to_jpeg sample_env ''pics/b.webp'' None 85 latin_world
       = (Inr (Some ''pics/b.jpg''),
          printed ''Converted: pics/b.webp -> pics/b.jpg''
            (latin_world\<lparr>saved := [(''pics/b.jpg'', sample_rgb)]\<rparr>))
   \<and> batch_convert_webp_to_jpeg sample_env ''pics'' 85 False latin_world
       = (Inl unicode_encode_error, latin_world)
   \<and> saved latin_world = [] \<and> stdout latin_world = []"
proof -
  have t: "batch_targets latin_world ''pics'' False = [] @ latin_path # [''pics/b.webp'']"
    by (simp add: latin_targets)
  have n: "convert_each sample_env 85 [] latin_world = (Inr (), latin_world)" by simp
  from raising_call_stops_batch [OF t n latin_convert]
  have b: "batch_convert_webp_to_jpeg sample_env ''pics'' 85 False latin_world
       = (Inl unicode_encode_error, latin_world)" .
  have s: "saved latin_world = []" "stdout latin_world = []"
    by (simp_all add: latin_world_def)
  from latin_targets latin_open latin_convert_b b s show ?thesis
    by (intro conjI) assumption+
qed

section \<open>Dispatch from the command line\<close>

lemma batch_targets_printed:
  "batch_targets (printed line w) directory rec = batch_targets w directory rec"
  by (simp add: batch_targets_def os_listdir_def os_walk_def printed_keeps_resolve)

lemma isdir_printed: "os_path_isdir (printed line w) p = os_path_isdir w p"
  by (simp add: os_path_isdir_def printed_keeps_resolve)

lemma warning_valid:
  "utf8_valid ''Warning: Output path is ignored when processing a directory''"
  by (rule utf8_valid_ascii) (simp add: in_range_def)

lemma print_warning:
  "print env ''Warning: Output path is ignored when processing a directory'' w
     = Inr (printed ''Warning: Output path is ignored when processing a directory'' w)"
  using warning_valid by (rule print_valid)

text \<open>
  Claim C7, as the code has it. When the input is a directory and a non-empty output
  path is given, \<open>main\<close> prints the warning and runs the batch walker on the directory
  with the quality and the recursive flag only. The walker calls the converter without
  an output path, so every file saved by the run lies at the path derived from one of
  its inputs; the given output path plays no part.
\<close>

theorem directory_input_ignores_output:
  assumes "parse_args parser argv = Namespace a"
    and "command a = Some ''webp2jpeg''"
    and "os_path_isdir w (input a)"
    and "output' a = Some out"
    and "out \<noteq> []"
  shows "main env parser argv w
           = ended (batch_convert_webp_to_jpeg env (input a) (quality a) (recursive a)
               (printed ''Warning: Output path is ignored when processing a directory'' w))
     \<and> main env parser argv w
         = ended (convert_each env (quality a) (batch_targets w (input a) (recursive a))
                  (printed ''Warning: Output path is ignored when processing a directory'' w))
     \<and> (\<exists>new. saved (snd (convert_each env (quality a)
                            (batch_targets w (input a) (recursive a))
                            (printed
                               ''Warning: Output path is ignored when processing a directory''
                               w)))
                = new @ saved w
           \<and> list_all (\<lambda>(p, c). p \<in> derive_output_path ` set (batch_targets w (input a) (recursive a)))
                new)"
proof -
  let ?w = "printed ''Warning: Output path is ignored when processing a directory'' w"
  have m: "main env parser argv w
             = ended (batch_convert_webp_to_jpeg env (input a) (quality a) (recursive a) ?w)"
    using assms print_warning [of env w]
    by (simp add: main_def dispatch_def truthy_def del: utf8_valid.simps)
  have "os_path_isdir ?w (input a)" using assms(3) by (simp add: isdir_printed)
  then have "batch_convert_webp_to_jpeg env (input a) (quality a) (recursive a) ?w
               = convert_each env (quality a) (batch_targets ?w (input a) (recursive a)) ?w"
    using batch_each [of "recursive a" ?w "input a" env "quality a"] by simp
  then have b: "main env parser argv w
         = ended (convert_each env (quality a) (batch_targets w (input a) (recursive a)) ?w)"
    using m by (simp add: batch_targets_printed)
  have s: "saved ?w = saved w" by (simp add: printed_def)
  from convert_each_saved [of env "quality a" "batch_targets w (input a) (recursive a)" ?w]
  have "\<exists>new. saved (snd (convert_each env (quality a)
                            (batch_targets w (input a) (recursive a)) ?w))
                = new @ saved w
           \<and> list_all (\<lambda>(p, c). p \<in> derive_output_path ` set (batch_targets w (input a) (recursive a)))
                new"
    by (simp add: s)
  with m b show ?thesis by (intro conjI) assumption+
qed

lemma sample_isdir: "os_path_isdir sample_world ''pics''"
  by (simp add: os_path_isdir_def sample_resolve_entries)

lemma sample_parse_custom:
  "parse_args sample_parser [''webp2jpeg'', ''pics'', ''-o'', ''custom.jpg'']
     = Namespace \<lparr>command = Some ''webp2jpeg'', input = ''pics'',
                  output' = Some ''custom.jpg'', quality = 90, recursive = False\<rparr>"
  by (simp add: sample_parser_def)

theorem directory_input_ignores_output_witness:
  "parse_args sample_parser [''webp2jpeg'', ''pics'', ''-o'', ''custom.jpg'']
     = Namespace \<lparr>command = Some ''webp2jpeg'', input = ''pics'',
                  output' = Some ''custom.jpg'', quality = 90, recursive = False\<rparr>
   \<and> os_path_isdir sample_world ''pics''
   \<and> main sample_env sample_parser [''webp2jpeg'', ''pics'', ''-o'', ''custom.jpg'']
        sample_world
       = ended (convert_each sample_env 90
                [''pics/a.webp'', ''pics/broken.webp'', ''pics/b.WEBP'', ''pics/dir.webp'']
                (printed ''Warning: Output path is ignored when processing a directory''
                   sample_world))"
proof -
  let ?a = "\<lparr>command = Some ''webp2jpeg'', input = ''pics'', output' = Some ''custom.jpg'',
         quality = 90, recursive = False\<rparr>"
  have "main sample_env sample_parser [''webp2jpeg'', ''pics'', ''-o'', ''custom.jpg'']
          sample_world
         = ended (convert_each sample_env (quality ?a)
                  (batch_targets sample_world (input ?a) (recursive ?a))
                  (printed ''Warning: Output path is ignored when processing a directory''
                     sample_world))"
    using directory_input_ignores_output [OF sample_parse_custom, of sample_world
        "''custom.jpg''" sample_env, THEN conjunct2, THEN conjunct1] sample_isdir
    by simp
  then have "main sample_env sample_parser [''webp2jpeg'', ''pics'', ''-o'', ''custom.jpg'']
          sample_world
       = ended (convert_each sample_env 90
                [''pics/a.webp'', ''pics/broken.webp'', ''pics/b.WEBP'', ''pics/dir.webp'']
                (printed ''Warning: Output path is ignored when processing a directory''
                   sample_world))"
    by (simp add: sample_targets_flat)
  with sample_parse_custom sample_isdir show ?thesis by (intro conjI) assumption+
qed

text \<open>
  The claim as stated fails for the empty output path: \<open>-o ""\<close> over a directory gives
  no warning. Here the directory is empty, and the run prints nothing at all.
\<close>

theorem empty_output_path_gives_no_warning:
  "parse_args sample_parser [''webp2jpeg'', ''pics'', ''-o'', []]
     = Namespace \<lparr>command = Some ''webp2jpeg'', input = ''pics'', output' = Some [],
                  quality = 90, recursive = False\<rparr>
   \<and> os_path_isdir empty_world ''pics''
   \<and> main sample_env sample_parser [''webp2jpeg'', ''pics'', ''-o'', []] empty_world
       = (Returned, empty_world)
   \<and> stdout empty_world = []"
proof -
  have p: "parse_args sample_parser [''webp2jpeg'', ''pics'', ''-o'', []]
     = Namespace \<lparr>command = Some ''webp2jpeg'', input = ''pics'', output' = Some [],
                  quality = 90, recursive = False\<rparr>"
    by (simp add: sample_parser_def)
  have r: "resolve empty_world ''pics'' = Some (Directory [])"
    by (simp add: resolve_def empty_world_def)
  have d: "os_path_isdir empty_world ''pics''" by (simp add: os_path_isdir_def r)
  have l: "os_listdir empty_world ''pics'' = Inr []" by (simp add: os_listdir_def r)
  have m: "main sample_env sample_parser [''webp2jpeg'', ''pics'', ''-o'', []] empty_world
       = (Returned, empty_world)"
    by (simp add: main_def p dispatch_def d truthy_def batch_convert_webp_to_jpeg_def l
        ended_def)
  have s: "stdout empty_world = []" by (simp add: empty_world_def)
  from p d m s show ?thesis by (intro conjI) assumption+
qed

section \<open>Invocations without a recognized command\<close>

lemma print_help_keeps:
  "print_help env parser w = Inr w' \<Longrightarrow>
   w' = w\<lparr>stdout := stdout w @ format_usage parser @ format_help_body parser\<rparr>"
  by (auto simp: print_help_def format_help_def split: if_splits)

text \<open>
  Claim C9. Take any arguments that the parser does not turn into a namespace with the
  command \<open>webp2jpeg\<close>. Then \<open>main\<close> converts nothing, and what it prints is the
  usage: when the parser yields a namespace (no command was given) the help of the
  parser, which begins with its usage, goes to standard output and \<open>main\<close> returns;
  for the help option the same and the process exits with status 0; when the parser
  rejects the arguments (a word that is no command) the usage and the error message go
  to standard error and the process exits with status 2. The one other way out is a
  help text that standard output cannot encode.
\<close>

theorem no_command_prints_usage:
  assumes "\<forall>a. parse_args parser argv = Namespace a \<longrightarrow> command a \<noteq> Some ''webp2jpeg''"
  shows "(case parse_args parser argv of
            Namespace a \<Rightarrow>
              main env parser argv w
                = (if stdout_strict env
                      \<and> \<not> list_all utf8_valid (format_usage parser @ format_help_body parser)
                   then (Raised unicode_encode_error, w)
                   else (Returned,
                         w\<lparr>stdout := stdout w @ format_usage parser
                                       @ format_help_body parser\<rparr>))
          | Help_requested \<Rightarrow>
              main env parser argv w
                = (if stdout_strict env
                      \<and> \<not> list_all utf8_valid (format_usage parser @ format_help_body parser)
                   then (Raised unicode_encode_error, w)
                   else (Exited 0,
                         w\<lparr>stdout := stdout w @ format_usage parser
                                       @ format_help_body parser\<rparr>))
          | Usage_error usage message \<Rightarrow>
              main env parser argv w
                = (Exited 2,
                   w\<lparr>stderr := stderr w @ usage
                                 @ [prog parser @ '': error: '' @ message]\<rparr>))
     \<and> saved (snd (main env parser argv w)) = saved w
     \<and> fs_tree (snd (main env parser argv w)) = fs_tree w"
proof (cases "parse_args parser argv")
  case (Namespace a)
  with assms have "command a \<noteq> Some ''webp2jpeg''" by simp
  with Namespace show ?thesis
    by (simp add: main_def dispatch_def ended_def print_help_def format_help_def
        del: utf8_valid.simps)
next
  case Help_requested
  then show ?thesis
    by (simp add: main_def print_help_def format_help_def del: utf8_valid.simps)
next
  case (Usage_error usage message)
  then show ?thesis by (simp add: main_def)
qed

lemma sample_help_valid:
  "list_all utf8_valid (format_usage sample_parser @ format_help_body sample_parser)"
proof -
  have "list_all (\<lambda>s. list_all (\<lambda>c. in_range c 0 127) s)
          (format_usage sample_parser @ format_help_body sample_parser)"
    by (simp add: sample_parser_def sample_usage_def in_range_def)
  then show ?thesis
    using utf8_valid_ascii by (simp add: list_all_iff del: utf8_valid.simps)
qed

theorem no_command_prints_usage_witness:
  "parse_args sample_parser []
     = Namespace \<lparr>command = None, input = [], output' = None, quality = 90,
                  recursive = False\<rparr>
   \<and> main sample_env sample_parser [] sample_world
       = (Returned,
          sample_world\<lparr>stdout := stdout sample_world @ format_usage sample_parser
                                   @ format_help_body sample_parser\<rparr>)
   \<and> parse_args sample_parser [''png2jpeg'']
       = Usage_error sample_usage
           (''argument command: invalid choice: '' @ quoted ''png2jpeg''
            @ '' (choose from '' @ quoted ''webp2jpeg'' @ '')'')
   \<and> main sample_env sample_parser [''png2jpeg''] sample_world
       = (Exited 2,
          sample_world\<lparr>stderr := stderr sample_world @ sample_usage
             @ [prog sample_parser @ '': error: ''
                  @ ''argument command: invalid choice: '' @ quoted ''png2jpeg''
                  @ '' (choose from '' @ quoted ''webp2jpeg'' @ '')'']\<rparr>)
   \<and> saved (snd (main sample_env sample_parser [''png2jpeg''] sample_world))
       = saved sample_world"
proof -
  have p0: "parse_args sample_parser []
     = Namespace \<lparr>command = None, input = [], output' = None, quality = 90,
                  recursive = False\<rparr>"
    by (simp add: sample_parser_def)
  have p1: "parse_args sample_parser [''png2jpeg'']
       = Usage_error sample_usage
           (''argument command: invalid choice: '' @ quoted ''png2jpeg''
            @ '' (choose from '' @ quoted ''webp2jpeg'' @ '')'')"
    by (simp add: sample_parser_def)
  have h0: "\<forall>a. parse_args sample_parser [] = Namespace a \<longrightarrow> command a \<noteq> Some ''webp2jpeg''"
    unfolding p0 by simp
  have h1: "\<forall>a. parse_args sample_parser [''png2jpeg''] = Namespace a
              \<longrightarrow> command a \<noteq> Some ''webp2jpeg''"
    unfolding p1 by simp
  from no_command_prints_usage [OF h0, of sample_env sample_world, THEN conjunct1]
  have m0: "main sample_env sample_parser [] sample_world
       = (Returned,
          sample_world\<lparr>stdout := stdout sample_world @ format_usage sample_parser
                                   @ format_help_body sample_parser\<rparr>)"
    unfolding p0 using sample_help_valid by (simp del: utf8_valid.simps)
  note t = no_command_prints_usage [OF h1, of sample_env sample_world]
  from t [THEN conjunct1]
  have m1: "main sample_env sample_parser [''png2jpeg''] sample_world
       = (Exited 2,
          sample_world\<lparr>stderr := stderr sample_world @ sample_usage
             @ [prog sample_parser @ '': error: ''
                  @ ''argument command: invalid choice: '' @ quoted ''png2jpeg''
                  @ '' (choose from '' @ quoted ''webp2jpeg'' @ '')'']\<rparr>)"
    unfolding p1 by simp
  from t [THEN conjunct2, THEN conjunct1]
  have s1: "saved (snd (main sample_env sample_parser [''png2jpeg''] sample_world))
       = saved sample_world" .
  from p0 m0 p1 m1 s1 show ?thesis by (intro conjI) assumption+
qed

section \<open>Entries that are not files\<close>






end
